theory Spec2Isabelle
  imports Main
begin

section \<open>Proxy chains (chain.go)\<close>

subsection \<open>Data model\<close>

text \<open>
  Modelled from the spec: the node descriptor (type \<open>ProxyNode\<close>, declared outside
  chain.go). chain.go reads its address, its transport kind, its expected server name and
  the result of \<open>insecureSkipVerify()\<close>, which is kept as a field.
\<close>

record ProxyNode =
  Addr :: string
  Transport :: string
  serverName :: string
  insecureSkipVerify :: bool

text \<open>The two fields of \<open>tls.Config\<close> that chain.go sets.\<close>

record tls_Config =
  InsecureSkipVerify :: bool
  ServerName :: string

text \<open>
  Connections. \<open>NilConn\<close> is Go's \<open>nil\<close>. A raw TCP socket carries the identifier of
  its stream and the dialled address; the tunnel stream (\<open>http2Conn{r, w}\<close>) carries the
  identifier of the response body it reads from and of the pipe it writes to;
  \<open>tls.Client(conn, cfg)\<close> and \<open>NewProxyConn(conn, node)\<close> wrap a connection.
  Interface values and \<open>*ProxyConn\<close> pointers share this type, so a nil pointer handed
  on as a \<open>net.Conn\<close> is \<open>NilConn\<close> as well.
\<close>

datatype conn =
    NilConn
  | TcpConn nat string
  | Http2Conn nat nat
  | TlsClient conn tls_Config
  | ProxyConn conn ProxyNode

datatype error =
    ErrEmptyChain
  | ErrorsNew string
  | ExtError string

datatype panic = IndexOutOfRange | SliceBoundsOutOfRange | NilDereference

text \<open>The fields of \<open>http.Request\<close> that \<open>getHttp2Conn\<close> sets; the body is the pipe's read end.\<close>

record http_Request =
  Method :: string
  URL_Scheme :: string
  URL_Host :: string
  Header :: "(string \<times> string) list"
  Proto :: string
  ProtoMajor :: int
  ProtoMinor :: int
  Body :: nat
  Host :: string
  ContentLength :: int

record http_Response =
  StatusCode :: int
  Status :: string
  RespBody :: nat

text \<open>
  The shortcut client: an \<open>http.Client\<close> over an \<open>http2.Transport\<close>. The record
  holds what \<open>initHttp2Client\<close> puts into it: the TLS configuration, and the node list
  that the \<open>DialTLS\<close> function literal captured. The function itself is \<open>DialTLS\<close>
  below; the transport calls it in \<open>transport_conn\<close>.
\<close>

record http_Client =
  TLSClientConfig :: tls_Config
  dial_nodes :: "ProxyNode list"

record ProxyChain =
  nodes :: "ProxyNode list"
  lastNode :: "ProxyNode option"
  http2NodeIndex :: int
  http2Enabled :: bool
  http2Client :: "http_Client option"

subsection \<open>The outside world\<close>

text \<open>
  Every call that leaves chain.go is recorded, oldest first, in the trace of the world.
  The world also holds the identifiers of the streams that are open (sockets and response
  bodies), the streams on which keep-alive was set, the connections that the shortcut
  client's transport has dialled for itself and keeps, and the next fresh identifier.
\<close>

datatype event =
    EvDial string
  | EvHandshake conn
  | EvConnect conn string
  | EvClose conn
  | EvDo http_Request
  | EvBodyClose nat

record world =
  trace :: "event list"
  live :: "nat list"
  keepalive :: "conn list"
  pool :: "conn list"
  next_id :: nat

text \<open>
  The collaborators decide whether a call fails. Each answer may depend on everything
  that happened before (the trace), so that two dials of one address can end differently.
  \<open>reuse_conn\<close> says whether the transport finds a connection it keeps still usable.
  \<open>ParseProxyNode\<close> is the external node parser.
\<close>

record env =
  dial_result :: "event list \<Rightarrow> string \<Rightarrow> error option"
  handshake_result :: "event list \<Rightarrow> conn \<Rightarrow> error option"
  connect_result :: "event list \<Rightarrow> conn \<Rightarrow> string \<Rightarrow> error option"
  do_result :: "event list \<Rightarrow> http_Request \<Rightarrow> error + (int \<times> string)"
  reuse_conn :: "event list \<Rightarrow> bool"
  ParseProxyNode :: "string \<Rightarrow> error + ProxyNode"

text \<open>What a call returns: Go's pair \<open>(conn, err)\<close>, or a run-time panic.\<close>

datatype outcome = Return conn "error option" | Panics panic

definition log :: "event \<Rightarrow> world \<Rightarrow> world" where
  "log e w = w\<lparr>trace := trace w @ [e]\<rparr>"

text \<open>\<open>net.DialTimeout("tcp", addr, DialTimeout)\<close>: a fresh open stream, or an error.\<close>

definition net_DialTimeout :: "env \<Rightarrow> string \<Rightarrow> world \<Rightarrow> outcome \<times> world" where
  "net_DialTimeout E addr w =
     (case dial_result E (trace w) addr of
        Some e \<Rightarrow> (Return NilConn (Some e), log (EvDial addr) w)
      | None \<Rightarrow>
          (Return (TcpConn (next_id w) addr) None,
           (log (EvDial addr) w)\<lparr>live := live w @ [next_id w], next_id := Suc (next_id w)\<rparr>))"

definition setKeepAlive :: "conn \<Rightarrow> world \<Rightarrow> world" where
  "setKeepAlive cc w = w\<lparr>keepalive := keepalive w @ [cc]\<rparr>"

text \<open>\<open>io.Pipe()\<close>: an in-process pipe; both ends share one fresh identifier.\<close>

definition io_Pipe :: "world \<Rightarrow> nat \<times> world" where
  "io_Pipe w = (next_id w, w\<lparr>next_id := Suc (next_id w)\<rparr>)"

text \<open>What \<open>c.http2Client.Do(&req)\<close> returns: a response, an error, or a panic.\<close>

datatype do_outcome = DoResponse http_Response | DoError error | DoPanics panic

definition Body_Close :: "nat \<Rightarrow> world \<Rightarrow> world" where
  "Body_Close b w = (log (EvBodyClose b) w)\<lparr>live := filter (\<lambda>i. i \<noteq> b) (live w)\<rparr>"

text \<open>The streams a connection is built from.\<close>

fun streams :: "conn \<Rightarrow> nat list" where
  "streams NilConn = []"
| "streams (TcpConn i a) = [i]"
| "streams (Http2Conn r p) = [r, p]"
| "streams (TlsClient cc cfg) = streams cc"
| "streams (ProxyConn cc node) = streams cc"

text \<open>
  Modelled from the spec: the per-hop connection type (\<open>ProxyConn\<close>, declared outside
  chain.go) with \<open>Handshake()\<close>, \<open>Connect(address)\<close> and \<open>Close()\<close>. Handshake and
  Connect succeed or fail as the hop decides and leave the streams as they are; closing a
  connection closes every layer it was built from, transitively.
\<close>

definition NewProxyConn :: "conn \<Rightarrow> ProxyNode \<Rightarrow> conn" where
  "NewProxyConn cc node = ProxyConn cc node"

definition Handshake :: "env \<Rightarrow> conn \<Rightarrow> world \<Rightarrow> error option \<times> world" where
  "Handshake E pc w = (handshake_result E (trace w) pc, log (EvHandshake pc) w)"

definition Connect :: "env \<Rightarrow> conn \<Rightarrow> string \<Rightarrow> world \<Rightarrow> error option \<times> world" where
  "Connect E pc addr w = (connect_result E (trace w) pc addr, log (EvConnect pc addr) w)"

definition Close :: "conn \<Rightarrow> world \<Rightarrow> world" where
  "Close pc w = (log (EvClose pc) w)\<lparr>live := filter (\<lambda>i. i \<notin> set (streams pc)) (live w)\<rparr>"

subsection \<open>Go's indexing and slicing\<close>

text \<open>\<open>xs[i]\<close> panics unless \<open>0 \<le> i < len(xs)\<close>.\<close>

definition index :: "'a list \<Rightarrow> int \<Rightarrow> panic + 'a" where
  "index xs i = (if 0 \<le> i \<and> i < int (length xs) then Inr (xs ! nat i) else Inl IndexOutOfRange)"

text \<open>\<open>xs[k:]\<close> panics unless \<open>0 \<le> k \<le> len(xs)\<close>.\<close>

definition slice_from :: "'a list \<Rightarrow> int \<Rightarrow> panic + 'a list" where
  "slice_from xs k =
     (if 0 \<le> k \<and> k \<le> int (length xs) then Inr (drop (nat k) xs) else Inl SliceBoundsOutOfRange)"

subsection \<open>The node registry\<close>

definition NewProxyChain :: "ProxyNode list \<Rightarrow> ProxyChain" where
  "NewProxyChain ns =
     \<lparr>nodes = ns, lastNode = None, http2NodeIndex = - 1, http2Enabled = False, http2Client = None\<rparr>"

definition AddProxyNode :: "ProxyChain \<Rightarrow> ProxyNode list \<Rightarrow> ProxyChain" where
  "AddProxyNode c node = c\<lparr>nodes := nodes c @ node\<rparr>"

fun AddProxyNodeString :: "env \<Rightarrow> ProxyChain \<Rightarrow> string list \<Rightarrow> error option \<times> ProxyChain" where
  "AddProxyNodeString E c [] = (None, c)"
| "AddProxyNodeString E c (sn # snode) =
     (case ParseProxyNode E sn of
        Inl err \<Rightarrow> (Some err, c)
      | Inr node \<Rightarrow> AddProxyNodeString E (AddProxyNode c [node]) snode)"

definition Nodes :: "ProxyChain \<Rightarrow> ProxyNode list" where
  "Nodes c = nodes c"

definition Http2Enabled :: "ProxyChain \<Rightarrow> bool" where
  "Http2Enabled c = http2Enabled c"

subsection \<open>Activation\<close>

definition initHttp2Client :: "ProxyChain \<Rightarrow> string \<Rightarrow> tls_Config \<Rightarrow> ProxyNode list \<Rightarrow> ProxyChain" where
  "initHttp2Client c addr config ns =
     c\<lparr>http2Client := Some \<lparr>TLSClientConfig = config, dial_nodes = ns\<rparr>, http2Enabled := True\<rparr>"

text \<open>The loop \<open>for i, node := range c.nodes\<close> of \<open>TryEnableHttp2\<close>, from position \<open>i\<close> on.\<close>

fun scan_nodes :: "ProxyChain \<Rightarrow> nat \<Rightarrow> ProxyNode list \<Rightarrow> ProxyChain" where
  "scan_nodes c i [] = c"
| "scan_nodes c i (node # rest) =
     (if Transport node = ''http2'' then
        (let cfg = \<lparr>InsecureSkipVerify = insecureSkipVerify node, ServerName = serverName node\<rparr>;
             c1 = initHttp2Client c (Addr node) cfg (take i (nodes c))
         in c1\<lparr>http2NodeIndex := int i\<rparr>)
      else scan_nodes c (Suc i) rest)"

definition TryEnableHttp2 :: "ProxyChain \<Rightarrow> ProxyChain" where
  "TryEnableHttp2 c =
     (let len = length (nodes c) in
      if len = 0 then c
      else scan_nodes (c\<lparr>lastNode := Some (nodes c ! (len - 1))\<rparr>) 0 (nodes c))"

subsection \<open>The connection builders\<close>

text \<open>The loop \<open>for _, node := range nodes[1:]\<close> of \<open>travelNodes\<close>; it leaves \<open>(conn, err)\<close>.\<close>

fun travel_rest :: "env \<Rightarrow> conn \<Rightarrow> ProxyNode list \<Rightarrow> world \<Rightarrow> (conn \<times> error option) \<times> world" where
  "travel_rest E cn [] w = ((cn, None), w)"
| "travel_rest E cn (node # rest) w =
     (case Connect E cn (Addr node) w of
        (Some err, w1) \<Rightarrow> ((cn, Some err), w1)
      | (None, w1) \<Rightarrow>
          (let pc = NewProxyConn cn node in
           case Handshake E pc w1 of
             (Some err, w2) \<Rightarrow> ((cn, Some err), w2)
           | (None, w2) \<Rightarrow> travel_rest E pc rest w2))"

text \<open>
  The functions of chain.go call each other in a circle: \<open>getHttp2Conn\<close> sends its
  request through the shortcut client, whose transport calls the \<open>DialTLS\<close> function of
  \<open>initHttp2Client\<close> when it needs a connection of its own; that function calls
  \<open>dialWithNodes\<close>, which may call \<open>travelNodes\<close> and \<open>http2Connect\<close>, which call
  \<open>getHttp2Conn\<close> again. Nothing in the code bounds this circle. The circle is cut at the
  transport: every function takes, as its first argument \<open>D\<close>, the dial function that the
  transport calls, and \<open>DialTLS\<close> below is that function with fuel, the number of nested
  transport dials that may still be made. \<open>None\<close> means that the fuel ran out.
\<close>

type_synonym dial_fun =
  "http_Client \<Rightarrow> string \<Rightarrow> tls_Config \<Rightarrow> world \<Rightarrow> (outcome \<times> world) option"

text \<open>
  Modelled from the spec: the shortcut transport client (an \<open>http.Client\<close> over an
  \<open>http2.Transport\<close>, a library outside chain.go). It sends one request per tunnel
  request and returns a response with a status and a streaming body, or an error; it uses
  its secure-dial function only to establish its own connection to the shortcut node.
  \<^item> \<open>transport_conn\<close>: the transport takes a connection it keeps, or calls its dial
    function with the request's authority and its TLS configuration and keeps the result.
    The dial runs the code of chain.go, so a panic there is a panic of the call.
  \<^item> \<open>Client_Do\<close> is \<open>c.http2Client.Do(&req)\<close>: once the transport has a connection,
    the request is sent and the environment decides the answer.
\<close>

definition transport_conn :: "dial_fun \<Rightarrow> env \<Rightarrow> http_Client \<Rightarrow> string \<Rightarrow> world \<Rightarrow> (outcome \<times> world) option" where
  "transport_conn D E cl addr w =
     (if pool w \<noteq> [] \<and> reuse_conn E (trace w) then Some (Return (hd (pool w)) None, w)
      else case D cl addr (TLSClientConfig cl) w of
        None \<Rightarrow> None
      | Some (Panics p, w1) \<Rightarrow> Some (Panics p, w1)
      | Some (Return cn (Some err), w1) \<Rightarrow> Some (Return cn (Some err), w1)
      | Some (Return cn None, w1) \<Rightarrow> Some (Return cn None, w1\<lparr>pool := pool w1 @ [cn]\<rparr>))"

definition Client_Do :: "dial_fun \<Rightarrow> env \<Rightarrow> http_Client \<Rightarrow> http_Request \<Rightarrow> world \<Rightarrow> (do_outcome \<times> world) option" where
  "Client_Do D E cl req w =
     (case transport_conn D E cl (URL_Host req) w of
        None \<Rightarrow> None
      | Some (Panics p, w1) \<Rightarrow> Some (DoPanics p, w1)
      | Some (Return cn (Some err), w1) \<Rightarrow> Some (DoError err, w1)
      | Some (Return cn None, w1) \<Rightarrow>
          (case do_result E (trace w1) req of
             Inl err \<Rightarrow> Some (DoError err, log (EvDo req) w1)
           | Inr (code, status) \<Rightarrow>
               Some (DoResponse \<lparr>StatusCode = code, Status = status, RespBody = next_id w1\<rparr>,
                     (log (EvDo req) w1)\<lparr>live := live w1 @ [next_id w1],
                                          next_id := Suc (next_id w1)\<rparr>)))"

definition getHttp2Conn :: "dial_fun \<Rightarrow> env \<Rightarrow> ProxyChain \<Rightarrow> world \<Rightarrow> (outcome \<times> world) option" where
  "getHttp2Conn D E c w =
     (if \<not> Http2Enabled c then Some (Return NilConn (Some (ErrorsNew ''HTTP2 not enabled'')), w)
      else case index (nodes c) (http2NodeIndex c) of
        Inl p \<Rightarrow> Some (Panics p, w)
      | Inr http2Node \<Rightarrow>
          (case io_Pipe w of (pipe, w1) \<Rightarrow>
             (let req = \<lparr>Method = ''CONNECT'', URL_Scheme = ''https'', URL_Host = Addr http2Node,
                         Header = [(''Proxy-Switch'', ''gost'')],
                         Proto = ''HTTP/2.0'', ProtoMajor = 2, ProtoMinor = 0,
                         Body = pipe, Host = Addr http2Node, ContentLength = - 1\<rparr>
              in case http2Client c of
                   None \<Rightarrow> Some (Panics NilDereference, w1)
                 | Some cl \<Rightarrow>
                     (case Client_Do D E cl req w1 of
                        None \<Rightarrow> None
                      | Some (DoPanics p, w2) \<Rightarrow> Some (Panics p, w2)
                      | Some (DoError err, w2) \<Rightarrow> Some (Return NilConn (Some err), w2)
                      | Some (DoResponse resp, w2) \<Rightarrow>
                          if StatusCode resp \<noteq> 200
                          then Some (Return NilConn (Some (ErrorsNew (Status resp))),
                                     Body_Close (RespBody resp) w2)
                          else Some (Return (Http2Conn (RespBody resp) pipe) None, w2)))))"

definition http2Connect :: "dial_fun \<Rightarrow> env \<Rightarrow> ProxyChain \<Rightarrow> string \<Rightarrow> world \<Rightarrow> (outcome \<times> world) option" where
  "http2Connect D E c addr w =
     (case getHttp2Conn D E c w of
        None \<Rightarrow> None
      | Some (Panics p, w1) \<Rightarrow> Some (Panics p, w1)
      | Some (Return cn (Some err), w1) \<Rightarrow> Some (Return NilConn (Some err), w1)
      | Some (Return cn None, w1) \<Rightarrow>
          (case index (nodes c) (http2NodeIndex c) of
             Inl p \<Rightarrow> Some (Panics p, w1)
           | Inr node \<Rightarrow>
               (let pc = NewProxyConn cn node in
                case Connect E pc addr w1 of
                  (Some err, w2) \<Rightarrow> Some (Return NilConn (Some err), Close pc w2)
                | (None, w2) \<Rightarrow> Some (Return cn None, w2))))"

text \<open>
  The body of \<open>travelNodes\<close>, up to its \<open>return\<close>: the named results \<open>(conn, err)\<close>
  as they stand when the deferred function runs.
\<close>

definition travelNodes_body :: "dial_fun \<Rightarrow> env \<Rightarrow> ProxyChain \<Rightarrow> ProxyNode list \<Rightarrow> world \<Rightarrow> (outcome \<times> world) option" where
  "travelNodes_body D E c ns w =
     (case ns of
        [] \<Rightarrow> Some (Panics IndexOutOfRange, w)
      | node # rest \<Rightarrow>
          (case (if Http2Enabled c then http2Connect D E c (Addr node) w
                 else Some (net_DialTimeout E (Addr node) w)) of
             None \<Rightarrow> None
           | Some (Panics p, w1) \<Rightarrow> Some (Panics p, w1)
           | Some (Return cc (Some err), w1) \<Rightarrow> Some (Return NilConn (Some err), w1)
           | Some (Return cc None, w1) \<Rightarrow>
               (let w2 = setKeepAlive cc w1;
                    pc = NewProxyConn cc node
                in case Handshake E pc w2 of
                     (Some err, w3) \<Rightarrow> Some (Return NilConn (Some err), w3)
                   | (None, w3) \<Rightarrow>
                       (case travel_rest E pc rest w3 of
                          ((cn, err), w4) \<Rightarrow> Some (Return cn err, w4)))))"

text \<open>The deferred function: on an error with a connection at hand, close it and return none.\<close>

definition travelNodes :: "dial_fun \<Rightarrow> env \<Rightarrow> ProxyChain \<Rightarrow> ProxyNode list \<Rightarrow> world \<Rightarrow> (outcome \<times> world) option" where
  "travelNodes D E c ns w =
     (case travelNodes_body D E c ns w of
        None \<Rightarrow> None
      | Some (Panics p, w1) \<Rightarrow> Some (Panics p, w1)
      | Some (Return cn err, w1) \<Rightarrow>
          if err \<noteq> None \<and> cn \<noteq> NilConn then Some (Return NilConn err, Close cn w1)
          else Some (Return cn err, w1))"

definition dialWithNodes :: "dial_fun \<Rightarrow> env \<Rightarrow> ProxyChain \<Rightarrow> string \<Rightarrow> ProxyNode list \<Rightarrow> world \<Rightarrow> (outcome \<times> world) option" where
  "dialWithNodes D E c addr ns w =
     (if length ns = 0 then Some (net_DialTimeout E addr w)
      else case (if Http2Enabled c then slice_from ns (http2NodeIndex c + 1) else Inr ns) of
        Inl p \<Rightarrow> Some (Panics p, w)
      | Inr ns' \<Rightarrow>
          if Http2Enabled c \<and> length ns' = 0 then http2Connect D E c addr w
          else (case travelNodes D E c ns' w of
                  None \<Rightarrow> None
                | Some (Panics p, w1) \<Rightarrow> Some (Panics p, w1)
                | Some (Return pc (Some err), w1) \<Rightarrow> Some (Return NilConn (Some err), w1)
                | Some (Return pc None, w1) \<Rightarrow>
                    (case Connect E pc addr w1 of
                       (Some err, w2) \<Rightarrow> Some (Return NilConn (Some err), Close pc w2)
                     | (None, w2) \<Rightarrow> Some (Return pc None, w2))))"

text \<open>
  \<open>DialTLS\<close> is the function literal that \<open>initHttp2Client\<close> stores in the transport.
  It reads the chain as it is when the transport calls it, and the node list it captured.
  A transport that dials while this call runs has one unit of fuel less.
\<close>

fun DialTLS :: "nat \<Rightarrow> env \<Rightarrow> ProxyChain \<Rightarrow> dial_fun" where
  "DialTLS 0 E c cl addr cfg w = None"
| "DialTLS (Suc n) E c cl addr cfg w =
     (case dialWithNodes (DialTLS n E c) E c addr (dial_nodes cl) w of
        None \<Rightarrow> None
      | Some (Panics p, w1) \<Rightarrow> Some (Panics p, w1)
      | Some (Return cn (Some err), w1) \<Rightarrow> Some (Return cn (Some err), w1)
      | Some (Return cn None, w1) \<Rightarrow> Some (Return (TlsClient cn cfg) None, w1))"

subsection \<open>Entry points\<close>

definition Dial :: "dial_fun \<Rightarrow> env \<Rightarrow> ProxyChain \<Rightarrow> string \<Rightarrow> world \<Rightarrow> (outcome \<times> world) option" where
  "Dial D E c addr w =
     dialWithNodes D E c (if CHR '':'' \<notin> set addr then addr @ '':80'' else addr) (nodes c) w"

definition GetConn :: "dial_fun \<Rightarrow> env \<Rightarrow> ProxyChain \<Rightarrow> world \<Rightarrow> (outcome \<times> world) option" where
  "GetConn D E c w =
     (if length (nodes c) = 0 then Some (Return NilConn (Some ErrEmptyChain), w)
      else case (if Http2Enabled c then slice_from (nodes c) (http2NodeIndex c + 1)
                 else Inr (nodes c)) of
        Inl p \<Rightarrow> Some (Panics p, w)
      | Inr ns' \<Rightarrow>
          if Http2Enabled c \<and> length ns' = 0 then getHttp2Conn D E c w
          else travelNodes D E c ns' w)"

subsection \<open>Reading traces\<close>

text \<open>
  \<open>only_adds P w w'\<close>: the world \<open>w'\<close> continues \<open>w\<close>, and every call recorded
  since \<open>w\<close> satisfies \<open>P\<close>.
\<close>

definition only_adds :: "(event \<Rightarrow> bool) \<Rightarrow> world \<Rightarrow> world \<Rightarrow> bool" where
  "only_adds P w w' \<longleftrightarrow>
     take (length (trace w)) (trace w') = trace w \<and>
     list_all P (drop (length (trace w)) (trace w'))"

fun is_handshake :: "event \<Rightarrow> bool" where
  "is_handshake (EvHandshake pc) = True"
| "is_handshake e = False"

fun is_connect :: "event \<Rightarrow> bool" where
  "is_connect (EvConnect pc a) = True"
| "is_connect e = False"

text \<open>The calls of the tunnel stream adapter: the request and the closing of a response body.\<close>

fun is_tunnel :: "event \<Rightarrow> bool" where
  "is_tunnel (EvDo req) = True"
| "is_tunnel (EvBodyClose b) = True"
| "is_tunnel e = False"

text \<open>A stream is open when its identifier is live.\<close>

definition all_closed :: "conn \<Rightarrow> world \<Rightarrow> bool" where
  "all_closed cn w \<longleftrightarrow> list_all (\<lambda>i. i \<notin> set (live w)) (streams cn)"

fun is_close :: "event \<Rightarrow> bool" where
  "is_close (EvClose pc) = True"
| "is_close e = False"

text \<open>
  The run that the spec describes for a chain built over raw TCP (the onion of section
  4.4: one raw dial followed by connect-then-handshake steps), written out independently
  of \<open>travelNodes\<close>, to compare the code with.
  \<^item> \<open>spec_layers cn ns\<close>: the connection after the hops \<open>ns\<close> are layered on \<open>cn\<close>.
  \<^item> \<open>spec_hop_calls cn ns\<close>: for each hop in order, the connect to its address on the
    layer below, then its handshake on top.
  \<^item> \<open>spec_chain_calls i ns\<close>, \<open>spec_chain_conn i ns\<close>: the calls and the result of
    building the whole list \<open>ns\<close> on a fresh socket \<open>i\<close>: the dial of the first node, its
    handshake, then the hops.
  \<^item> \<open>spec_dial_calls i ns addr\<close>, \<open>spec_dial_conn i ns addr\<close>: the same for a dial of
    \<open>addr\<close> through \<open>ns\<close>: a direct dial when \<open>ns\<close> is empty, else the chain followed
    by a connect to \<open>addr\<close> on its last layer.
\<close>

fun spec_layers :: "conn \<Rightarrow> ProxyNode list \<Rightarrow> conn" where
  "spec_layers cn [] = cn"
| "spec_layers cn (node # rest) = spec_layers (ProxyConn cn node) rest"

fun spec_hop_calls :: "conn \<Rightarrow> ProxyNode list \<Rightarrow> event list" where
  "spec_hop_calls cn [] = []"
| "spec_hop_calls cn (node # rest) =
     EvConnect cn (Addr node) # EvHandshake (ProxyConn cn node) #
     spec_hop_calls (ProxyConn cn node) rest"

fun spec_chain_calls :: "nat \<Rightarrow> ProxyNode list \<Rightarrow> event list" where
  "spec_chain_calls i [] = []"
| "spec_chain_calls i (node # rest) =
     EvDial (Addr node) # EvHandshake (ProxyConn (TcpConn i (Addr node)) node) #
     spec_hop_calls (ProxyConn (TcpConn i (Addr node)) node) rest"

fun spec_chain_conn :: "nat \<Rightarrow> ProxyNode list \<Rightarrow> conn" where
  "spec_chain_conn i [] = NilConn"
| "spec_chain_conn i (node # rest) = spec_layers (ProxyConn (TcpConn i (Addr node)) node) rest"

definition spec_dial_calls :: "nat \<Rightarrow> ProxyNode list \<Rightarrow> string \<Rightarrow> event list" where
  "spec_dial_calls i ns addr =
     (if ns = [] then [EvDial addr]
      else spec_chain_calls i ns @ [EvConnect (spec_chain_conn i ns) addr])"

definition spec_dial_conn :: "nat \<Rightarrow> ProxyNode list \<Rightarrow> string \<Rightarrow> conn" where
  "spec_dial_conn i ns addr = (if ns = [] then TcpConn i addr else spec_chain_conn i ns)"

text \<open>
  The chains on which activation never took effect: built by \<open>NewProxyChain\<close>, grown by
  the two append operations, and passed through \<open>TryEnableHttp2\<close> only while empty.
\<close>

inductive never_activated :: "env \<Rightarrow> ProxyChain \<Rightarrow> bool" for E :: env where
  created: "never_activated E (NewProxyChain ns)"
| added: "never_activated E c \<Longrightarrow> never_activated E (AddProxyNode c ns)"
| added_strings: "never_activated E c \<Longrightarrow> never_activated E (snd (AddProxyNodeString E c sns))"
| activated_empty: "never_activated E c \<Longrightarrow> nodes c = [] \<Longrightarrow> never_activated E (TryEnableHttp2 c)"

subsection \<open>Example data\<close>

definition nodeA :: ProxyNode where
  "nodeA = \<lparr>Addr = ''a.example:1080'', Transport = ''tcp'', serverName = ''a.example'',
            insecureSkipVerify = False\<rparr>"

definition nodeB :: ProxyNode where
  "nodeB = \<lparr>Addr = ''b.example:443'', Transport = ''http2'', serverName = ''b.example'',
            insecureSkipVerify = True\<rparr>"

definition nodeC :: ProxyNode where
  "nodeC = \<lparr>Addr = ''c.example:8080'', Transport = ''tcp'', serverName = ''c.example'',
            insecureSkipVerify = False\<rparr>"

definition nodeD :: ProxyNode where
  "nodeD = \<lparr>Addr = ''d.example:443'', Transport = ''http2'', serverName = ''d.example'',
            insecureSkipVerify = False\<rparr>"

text \<open>A parser that knows three specifications and rejects the rest.\<close>

definition parse_example :: "string \<Rightarrow> error + ProxyNode" where
  "parse_example s =
     (if s = ''a.example:1080'' then Inr nodeA
      else if s = ''http2://b.example:443'' then Inr nodeB
      else if s = ''c.example:8080'' then Inr nodeC
      else Inl (ExtError ''invalid node''))"

text \<open>An environment where every call succeeds and the tunnel answers 200.\<close>

definition env_ok :: env where
  "env_ok =
     \<lparr>dial_result = (\<lambda>h a. None),
      handshake_result = (\<lambda>h pc. None),
      connect_result = (\<lambda>h pc a. None),
      do_result = (\<lambda>h req. Inr (200, ''200 OK'')),
      reuse_conn = (\<lambda>h. True),
      ParseProxyNode = parse_example\<rparr>"

text \<open>Environments where one kind of call always fails, or the tunnel answers 503.\<close>

definition env_handshake_fails :: env where
  "env_handshake_fails = env_ok\<lparr>handshake_result := (\<lambda>h pc. Some (ExtError ''handshake failed''))\<rparr>"

definition env_connect_fails :: env where
  "env_connect_fails = env_ok\<lparr>connect_result := (\<lambda>h pc a. Some (ExtError ''connect failed''))\<rparr>"

definition env_503 :: env where
  "env_503 = env_ok\<lparr>do_result := (\<lambda>h req. Inr (503, ''503 Service Unavailable''))\<rparr>"

text \<open>An environment where only the handshake of a layer for \<open>nodeB\<close> fails.\<close>

definition env_B_handshake_fails :: env where
  "env_B_handshake_fails =
     env_ok\<lparr>handshake_result :=
       (\<lambda>h pc. case pc of
                  ProxyConn cc node \<Rightarrow>
                    if Addr node = Addr nodeB then Some (ExtError ''handshake failed'') else None
                | _ \<Rightarrow> None)\<rparr>"

definition w0 :: world where
  "w0 = \<lparr>trace = [], live = [], keepalive = [], pool = [], next_id = 0\<rparr>"

section \<open>Properties\<close>

text \<open>
  The theorems are stated for the program as it runs: the dial function of the transport is
  \<open>DialTLS n E c\<close>, for every amount \<open>n\<close> of fuel unless a theorem says otherwise.
\<close>

subsection \<open>The empty chain\<close>

text \<open>
  Claim C9. On a chain whose registry holds no node, \<open>GetConn\<close> returns the empty-chain
  error and no connection, and the world is left as it was: nothing is dialled, nothing is
  sent.
\<close>

theorem GetConn_empty_chain:
  "nodes c = [] \<Longrightarrow>
   GetConn (DialTLS n E c) E c w = Some (Return NilConn (Some ErrEmptyChain), w)"
  by (simp add: GetConn_def)

theorem GetConn_empty_chain_witness:
  "nodes (NewProxyChain []) = [] \<and>
   GetConn (DialTLS 0 env_ok (NewProxyChain [])) env_ok (NewProxyChain []) w0 =
     Some (Return NilConn (Some ErrEmptyChain), w0)"
  using GetConn_empty_chain [of "NewProxyChain []" 0 env_ok w0] by (simp add: NewProxyChain_def)

subsection \<open>The node registry\<close>

lemma AddProxyNode_twice: "AddProxyNode (AddProxyNode c xs) ys = AddProxyNode c (xs @ ys)"
  by (simp add: AddProxyNode_def)

lemma AddProxyNode_Nil: "AddProxyNode c [] = c"
  by (simp add: AddProxyNode_def)

text \<open>
  Claim C3, as amended. When an entry of the batch is unparsable, \<open>AddProxyNodeString\<close>
  stops at the first such entry and returns the parser's error as it is; the nodes parsed
  from the entries before it have been appended to the registry, in order, and stay there;
  no later entry is parsed or appended.
\<close>

theorem AddProxyNodeString_first_error:
  assumes "\<forall>s \<in> set pre. \<exists>node. ParseProxyNode E s = Inr node"
    and "ParseProxyNode E sn = Inl err"
  shows "AddProxyNodeString E c (pre @ sn # post) =
           (Some err, AddProxyNode c (map (\<lambda>s. projr (ParseProxyNode E s)) pre))"
  using assms(1)
proof (induction pre arbitrary: c)
  case Nil
  show ?case using assms(2) by (simp add: AddProxyNode_Nil)
next
  case (Cons s pre)
  from Cons.prems obtain node where s: "ParseProxyNode E s = Inr node" by auto
  from Cons.prems have rest: "\<forall>s \<in> set pre. \<exists>node. ParseProxyNode E s = Inr node" by simp
  show ?case using Cons.IH [OF rest, of "AddProxyNode c [node]"] s
    by (simp add: AddProxyNode_twice)
qed

theorem AddProxyNodeString_first_error_witness:
  "list_all (\<lambda>s. \<exists>node. ParseProxyNode env_ok s = Inr node) [''a.example:1080''] \<and>
   ParseProxyNode env_ok ''bogus'' = Inl (ExtError ''invalid node'') \<and>
   AddProxyNodeString env_ok (NewProxyChain [nodeC]) ([''a.example:1080''] @ ''bogus'' # [''c.example:8080'']) =
     (Some (ExtError ''invalid node''), NewProxyChain [nodeC, nodeA])"
  using AddProxyNodeString_first_error [of "[''a.example:1080'']" env_ok "''bogus''" "ExtError ''invalid node''"
      "NewProxyChain [nodeC]" "[''c.example:8080'']"]
  by (simp add: env_ok_def parse_example_def AddProxyNode_def NewProxyChain_def)

text \<open>
  The registry is not left as it was: of the batch \<open>[a.example:1080, bogus]\<close> the
  first entry is appended before the second is rejected.
\<close>

theorem AddProxyNodeString_partial_batch_counterexample:
  "ParseProxyNode env_ok ''bogus'' = Inl (ExtError ''invalid node'') \<and>
   fst (AddProxyNodeString env_ok (NewProxyChain []) [''a.example:1080'', ''bogus'']) = Some (ExtError ''invalid node'') \<and>
   nodes (snd (AddProxyNodeString env_ok (NewProxyChain []) [''a.example:1080'', ''bogus''])) = [nodeA] \<and>
   nodes (snd (AddProxyNodeString env_ok (NewProxyChain []) [''a.example:1080'', ''bogus''])) \<noteq> nodes (NewProxyChain [])"
  by (simp add: env_ok_def parse_example_def AddProxyNode_def NewProxyChain_def)

subsection \<open>Activation\<close>

lemma scan_nodes_nodes: "nodes (scan_nodes c k xs) = nodes c"
  by (induction xs arbitrary: k) (simp_all add: initHttp2Client_def Let_def)

lemma scan_nodes_none:
  "\<forall>n \<in> set xs. Transport n \<noteq> ''http2'' \<Longrightarrow> scan_nodes c k xs = c"
  by (induction xs arbitrary: k) simp_all

lemma scan_nodes_first:
  "i < length xs \<Longrightarrow> Transport (xs ! i) = ''http2'' \<Longrightarrow> \<forall>j<i. Transport (xs ! j) \<noteq> ''http2'' \<Longrightarrow>
   scan_nodes c k xs =
     c\<lparr>http2Client := Some \<lparr>TLSClientConfig = \<lparr>InsecureSkipVerify = insecureSkipVerify (xs ! i),
                                                ServerName = serverName (xs ! i)\<rparr>,
                             dial_nodes = take (k + i) (nodes c)\<rparr>,
       http2Enabled := True, http2NodeIndex := int (k + i)\<rparr>"
proof (induction xs arbitrary: k i)
  case Nil
  then show ?case by simp
next
  case (Cons x xs)
  show ?case
  proof (cases i)
    case 0
    with Cons.prems show ?thesis by (simp add: initHttp2Client_def Let_def)
  next
    case (Suc i')
    with Cons.prems have x: "Transport x \<noteq> ''http2''" by auto
    from Suc Cons.prems have a: "i' < length xs" "Transport (xs ! i') = ''http2''" by simp_all
    from Suc Cons.prems have b: "\<forall>j<i'. Transport (xs ! j) \<noteq> ''http2''" by auto
    show ?thesis using Cons.IH [OF a b, of "Suc k"] x Suc by simp
  qed
qed

text \<open>
  Claim C5. Activation never changes the node list. When node \<open>i\<close> is the first node
  whose transport kind is \<open>http2\<close>, activation enables the shortcut, records \<open>i\<close> as
  the shortcut index and hands the nodes before \<open>i\<close> to the shortcut client, whatever
  the later nodes are. When no node has that transport kind (in particular when the
  registry is empty), the enabled flag, the index and the client stay as they were.
\<close>

theorem TryEnableHttp2_first_shortcut:
  "nodes (TryEnableHttp2 c) = nodes c \<and>
   (i < length (nodes c) \<and> Transport (nodes c ! i) = ''http2'' \<and>
    (\<forall>j<i. Transport (nodes c ! j) \<noteq> ''http2'') \<longrightarrow>
      http2Enabled (TryEnableHttp2 c) \<and> http2NodeIndex (TryEnableHttp2 c) = int i \<and>
      map_option dial_nodes (http2Client (TryEnableHttp2 c)) = Some (take i (nodes c))) \<and>
   ((\<forall>n \<in> set (nodes c). Transport n \<noteq> ''http2'') \<longrightarrow>
      http2Enabled (TryEnableHttp2 c) = http2Enabled c \<and>
      http2NodeIndex (TryEnableHttp2 c) = http2NodeIndex c \<and>
      http2Client (TryEnableHttp2 c) = http2Client c)"
proof (intro conjI impI)
  show "nodes (TryEnableHttp2 c) = nodes c"
    by (simp add: TryEnableHttp2_def Let_def scan_nodes_nodes)
next
  assume h: "i < length (nodes c) \<and> Transport (nodes c ! i) = ''http2'' \<and>
    (\<forall>j<i. Transport (nodes c ! j) \<noteq> ''http2'')"
  then have ne: "nodes c \<noteq> []" by auto
  let ?c1 = "c\<lparr>lastNode := Some (nodes c ! (length (nodes c) - 1))\<rparr>"
  have eq: "TryEnableHttp2 c = scan_nodes ?c1 0 (nodes c)"
    using ne by (simp add: TryEnableHttp2_def Let_def)
  note sc = scan_nodes_first [of i "nodes c" ?c1 0]
  show "http2Enabled (TryEnableHttp2 c)" using h sc eq by simp
  show "http2NodeIndex (TryEnableHttp2 c) = int i" using h sc eq by simp
  show "map_option dial_nodes (http2Client (TryEnableHttp2 c)) = Some (take i (nodes c))"
    using h sc eq by simp
next
  assume h: "\<forall>n \<in> set (nodes c). Transport n \<noteq> ''http2''"
  have eq: "TryEnableHttp2 c = c \<or> TryEnableHttp2 c = c\<lparr>lastNode := Some (nodes c ! (length (nodes c) - 1))\<rparr>"
    using scan_nodes_none [of "nodes c" "c\<lparr>lastNode := Some (nodes c ! (length (nodes c) - 1))\<rparr>" 0] h
    by (simp add: TryEnableHttp2_def Let_def)
  show "http2Enabled (TryEnableHttp2 c) = http2Enabled c" using eq by auto
  show "http2NodeIndex (TryEnableHttp2 c) = http2NodeIndex c" using eq by auto
  show "http2Client (TryEnableHttp2 c) = http2Client c" using eq by auto
qed

theorem TryEnableHttp2_first_shortcut_witness:
  "nodes (TryEnableHttp2 (NewProxyChain [nodeA, nodeB, nodeC, nodeD])) = [nodeA, nodeB, nodeC, nodeD] \<and>
   http2Enabled (TryEnableHttp2 (NewProxyChain [nodeA, nodeB, nodeC, nodeD])) \<and>
   http2NodeIndex (TryEnableHttp2 (NewProxyChain [nodeA, nodeB, nodeC, nodeD])) = 1 \<and>
   list_all (\<lambda>n. Transport n \<noteq> ''http2'') (nodes (NewProxyChain [nodeA, nodeC])) \<and>
   \<not> http2Enabled (TryEnableHttp2 (NewProxyChain [nodeA, nodeC])) \<and>
   http2NodeIndex (TryEnableHttp2 (NewProxyChain [nodeA, nodeC])) = - 1 \<and>
   \<not> http2Enabled (TryEnableHttp2 (NewProxyChain []))"
  using TryEnableHttp2_first_shortcut [of "NewProxyChain [nodeA, nodeB, nodeC, nodeD]" 1]
    TryEnableHttp2_first_shortcut [of "NewProxyChain [nodeA, nodeC]" 0]
    TryEnableHttp2_first_shortcut [of "NewProxyChain []" 0]
  by (simp add: NewProxyChain_def nodeA_def nodeB_def nodeC_def nodeD_def less_Suc_eq)

subsection \<open>The shortcut client's dial function\<close>

text \<open>
  Claim C1. The code does not do what the claim says. After activation with the shortcut
  node at index \<open>i \<ge> 1\<close>, the dial function calls \<open>dialWithNodes\<close> with the \<open>i\<close>
  nodes before the shortcut node; the shortcut is enabled by then, so \<open>dialWithNodes\<close>
  evaluates \<open>nodes[i+1:]\<close> on a list of length \<open>i\<close> and panics before any dial.
\<close>

theorem DialTLS_prefix_panics:
  assumes "http2Enabled c" and "http2NodeIndex c = int i" and "1 \<le> i"
    and "i < length (nodes c)" and "dial_nodes cl = take i (nodes c)"
  shows "DialTLS (Suc n) E c cl addr cfg w = Some (Panics SliceBoundsOutOfRange, w)"
proof -
  have len: "length (dial_nodes cl) = i" using assms by simp
  have "slice_from (dial_nodes cl) (http2NodeIndex c + 1) = Inl SliceBoundsOutOfRange"
    using assms(2) len by (simp add: slice_from_def)
  then have "dialWithNodes (DialTLS n E c) E c addr (dial_nodes cl) w =
      Some (Panics SliceBoundsOutOfRange, w)"
    using assms(1,3) len by (simp add: dialWithNodes_def Http2Enabled_def)
  then show ?thesis by simp
qed

theorem DialTLS_prefix_panics_witness:
  "TryEnableHttp2 (NewProxyChain [nodeA, nodeB]) =
     \<lparr>nodes = [nodeA, nodeB], lastNode = Some nodeB, http2NodeIndex = 1, http2Enabled = True,
      http2Client = Some \<lparr>TLSClientConfig = \<lparr>InsecureSkipVerify = True, ServerName = ''b.example''\<rparr>,
                          dial_nodes = [nodeA]\<rparr>\<rparr> \<and>
   DialTLS (Suc 0) env_ok (TryEnableHttp2 (NewProxyChain [nodeA, nodeB]))
       \<lparr>TLSClientConfig = \<lparr>InsecureSkipVerify = True, ServerName = ''b.example''\<rparr>, dial_nodes = [nodeA]\<rparr>
       ''b.example:443'' \<lparr>InsecureSkipVerify = True, ServerName = ''b.example''\<rparr> w0 =
     Some (Panics SliceBoundsOutOfRange, w0)"
proof -
  let ?c = "TryEnableHttp2 (NewProxyChain [nodeA, nodeB])"
  have c: "?c = \<lparr>nodes = [nodeA, nodeB], lastNode = Some nodeB, http2NodeIndex = 1, http2Enabled = True,
      http2Client = Some \<lparr>TLSClientConfig = \<lparr>InsecureSkipVerify = True, ServerName = ''b.example''\<rparr>,
                          dial_nodes = [nodeA]\<rparr>\<rparr>"
    by (simp add: TryEnableHttp2_def NewProxyChain_def initHttp2Client_def Let_def nodeA_def nodeB_def)
  have on: "http2Enabled ?c" and ix: "http2NodeIndex ?c = int 1" and len: "1 < length (nodes ?c)"
    by (simp_all add: c)
  have dn: "dial_nodes \<lparr>TLSClientConfig = \<lparr>InsecureSkipVerify = True, ServerName = ''b.example''\<rparr>,
                        dial_nodes = [nodeA]\<rparr> = take 1 (nodes ?c)"
    by (simp add: c)
  from DialTLS_prefix_panics [OF on ix _ len dn, of 0 env_ok "''b.example:443''"
      "\<lparr>InsecureSkipVerify = True, ServerName = ''b.example''\<rparr>" w0] c
  show ?thesis by simp
qed

subsection \<open>The sequential handshake engine\<close>

text \<open>
  Claim C2. The code does not do what the claim says. With the shortcut disabled, when
  the dial of the first node succeeds and its handshake fails, \<open>travelNodes\<close> returns the
  error and no connection, but the socket it just opened is still open: the named result
  \<open>conn\<close> is still \<open>nil\<close> when the deferred function runs, so nothing is closed.
\<close>

theorem travelNodes_first_handshake_leak:
  assumes "\<not> http2Enabled c"
    and "dial_result E (trace w) (Addr node) = None"
    and "handshake_result E (trace w @ [EvDial (Addr node)])
           (ProxyConn (TcpConn (next_id w) (Addr node)) node) = Some err"
  shows "travelNodes (DialTLS n E c) E c (node # rest) w =
           Some (Return NilConn (Some err),
                 w\<lparr>trace := trace w @ [EvDial (Addr node),
                                        EvHandshake (ProxyConn (TcpConn (next_id w) (Addr node)) node)],
                   live := live w @ [next_id w],
                   keepalive := keepalive w @ [TcpConn (next_id w) (Addr node)],
                   next_id := Suc (next_id w)\<rparr>) \<and>
         \<not> all_closed (TcpConn (next_id w) (Addr node))
             (snd (the (travelNodes (DialTLS n E c) E c (node # rest) w)))"
  using assms
  by (simp add: travelNodes_def travelNodes_body_def Http2Enabled_def net_DialTimeout_def
      setKeepAlive_def NewProxyConn_def Handshake_def log_def all_closed_def)

theorem travelNodes_first_handshake_leak_witness:
  "\<not> http2Enabled (NewProxyChain [nodeA]) \<and>
   travelNodes (DialTLS 0 env_handshake_fails (NewProxyChain [nodeA])) env_handshake_fails
       (NewProxyChain [nodeA]) [nodeA] w0 =
     Some (Return NilConn (Some (ExtError ''handshake failed'')),
      \<lparr>trace = [EvDial ''a.example:1080'', EvHandshake (ProxyConn (TcpConn 0 ''a.example:1080'') nodeA)],
       live = [0], keepalive = [TcpConn 0 ''a.example:1080''], pool = [], next_id = 1\<rparr>) \<and>
   \<not> all_closed (TcpConn 0 ''a.example:1080'')
       (snd (the (travelNodes (DialTLS 0 env_handshake_fails (NewProxyChain [nodeA]))
                    env_handshake_fails (NewProxyChain [nodeA]) [nodeA] w0)))"
  using travelNodes_first_handshake_leak [of "NewProxyChain [nodeA]" env_handshake_fails w0 nodeA
      "ExtError ''handshake failed''" 0 "[]"]
  by (simp add: NewProxyChain_def env_handshake_fails_def env_ok_def w0_def nodeA_def all_closed_def)

lemmas engine_defs = travelNodes_def travelNodes_body_def Http2Enabled_def net_DialTimeout_def
  setKeepAlive_def NewProxyConn_def Handshake_def Connect_def Close_def log_def

text \<open>
  Claim C4. With the shortcut disabled, \<open>travelNodes\<close> on \<open>[A, B, C]\<close> dials \<open>A\<close>,
  performs \<open>A\<close>'s handshake, asks the \<open>A\<close> layer to connect to \<open>B\<close>, performs \<open>B\<close>'s
  handshake on top, asks the \<open>B\<close> layer to connect to \<open>C\<close>, performs \<open>C\<close>'s handshake
  on top, in this order and with nothing else in between, and returns the \<open>C\<close> layer.
  When \<open>B\<close>'s connect or \<open>B\<close>'s handshake fails, the run ends there: the error is
  returned with no connection, every stream under the layers built so far is closed, and
  no step for \<open>C\<close> was made. The call returns with any amount of fuel.
\<close>

theorem travelNodes_three_nodes:
  fixes A B C :: ProxyNode and w :: world and E :: env and c :: ProxyChain and n :: nat
  defines "la \<equiv> ProxyConn (TcpConn (next_id w) (Addr A)) A"
    and "lb \<equiv> ProxyConn (ProxyConn (TcpConn (next_id w) (Addr A)) A) B"
    and "lc \<equiv> ProxyConn (ProxyConn (ProxyConn (TcpConn (next_id w) (Addr A)) A) B) C"
  defines "t2 \<equiv> trace w @ [EvDial (Addr A), EvHandshake la]"
  defines "t3 \<equiv> t2 @ [EvConnect la (Addr B)]"
  defines "t4 \<equiv> t3 @ [EvHandshake lb]"
  defines "t5 \<equiv> t4 @ [EvConnect lb (Addr C)]"
  defines "t6 \<equiv> t5 @ [EvHandshake lc]"
  defines "r \<equiv> the (travelNodes (DialTLS n E c) E c [A, B, C] w)"
  assumes off: "\<not> http2Enabled c"
    and dial: "dial_result E (trace w) (Addr A) = None"
    and hsA: "handshake_result E (trace w @ [EvDial (Addr A)]) la = None"
  shows "travelNodes (DialTLS n E c) E c [A, B, C] w \<noteq> None \<and>
         (connect_result E t2 la (Addr B) = None \<and> handshake_result E t3 lb = None \<and>
          connect_result E t4 lb (Addr C) = None \<and> handshake_result E t5 lc = None \<longrightarrow>
            fst r = Return lc None \<and> trace (snd r) = t6 \<and> live (snd r) = live w @ [next_id w]) \<and>
         (connect_result E t2 la (Addr B) = Some err \<longrightarrow>
            fst r = Return NilConn (Some err) \<and> trace (snd r) = t3 @ [EvClose la] \<and>
            all_closed la (snd r)) \<and>
         (connect_result E t2 la (Addr B) = None \<and> handshake_result E t3 lb = Some err \<longrightarrow>
            fst r = Return NilConn (Some err) \<and> trace (snd r) = t4 @ [EvClose la] \<and>
            all_closed lb (snd r))"
  using off dial hsA
  unfolding r_def t6_def t5_def t4_def t3_def t2_def la_def lb_def lc_def
  by (auto simp add: engine_defs all_closed_def Let_def split: option.splits)

theorem travelNodes_three_nodes_witness:
  "\<not> http2Enabled (NewProxyChain [nodeA, nodeB, nodeC]) \<and>
   fst (the (travelNodes (DialTLS 0 env_ok (NewProxyChain [nodeA, nodeB, nodeC])) env_ok
       (NewProxyChain [nodeA, nodeB, nodeC]) [nodeA, nodeB, nodeC] w0)) =
     Return (ProxyConn (ProxyConn (ProxyConn (TcpConn 0 (Addr nodeA)) nodeA) nodeB) nodeC) None \<and>
   trace (snd (the (travelNodes (DialTLS 0 env_ok (NewProxyChain [nodeA, nodeB, nodeC])) env_ok
       (NewProxyChain [nodeA, nodeB, nodeC]) [nodeA, nodeB, nodeC] w0))) =
     [EvDial (Addr nodeA),
      EvHandshake (ProxyConn (TcpConn 0 (Addr nodeA)) nodeA),
      EvConnect (ProxyConn (TcpConn 0 (Addr nodeA)) nodeA) (Addr nodeB),
      EvHandshake (ProxyConn (ProxyConn (TcpConn 0 (Addr nodeA)) nodeA) nodeB),
      EvConnect (ProxyConn (ProxyConn (TcpConn 0 (Addr nodeA)) nodeA) nodeB) (Addr nodeC),
      EvHandshake (ProxyConn (ProxyConn (ProxyConn (TcpConn 0 (Addr nodeA)) nodeA) nodeB) nodeC)] \<and>
   fst (the (travelNodes (DialTLS 0 env_connect_fails (NewProxyChain [nodeA, nodeB, nodeC])) env_connect_fails
       (NewProxyChain [nodeA, nodeB, nodeC]) [nodeA, nodeB, nodeC] w0)) =
     Return NilConn (Some (ExtError ''connect failed'')) \<and>
   trace (snd (the (travelNodes (DialTLS 0 env_connect_fails (NewProxyChain [nodeA, nodeB, nodeC])) env_connect_fails
       (NewProxyChain [nodeA, nodeB, nodeC]) [nodeA, nodeB, nodeC] w0))) =
     [EvDial (Addr nodeA),
      EvHandshake (ProxyConn (TcpConn 0 (Addr nodeA)) nodeA),
      EvConnect (ProxyConn (TcpConn 0 (Addr nodeA)) nodeA) (Addr nodeB),
      EvClose (ProxyConn (TcpConn 0 (Addr nodeA)) nodeA)] \<and>
   all_closed (ProxyConn (TcpConn 0 (Addr nodeA)) nodeA)
     (snd (the (travelNodes (DialTLS 0 env_connect_fails (NewProxyChain [nodeA, nodeB, nodeC])) env_connect_fails
       (NewProxyChain [nodeA, nodeB, nodeC]) [nodeA, nodeB, nodeC] w0))) \<and>
   fst (the (travelNodes (DialTLS 0 env_B_handshake_fails (NewProxyChain [nodeA, nodeB, nodeC])) env_B_handshake_fails
       (NewProxyChain [nodeA, nodeB, nodeC]) [nodeA, nodeB, nodeC] w0)) =
     Return NilConn (Some (ExtError ''handshake failed'')) \<and>
   trace (snd (the (travelNodes (DialTLS 0 env_B_handshake_fails (NewProxyChain [nodeA, nodeB, nodeC])) env_B_handshake_fails
       (NewProxyChain [nodeA, nodeB, nodeC]) [nodeA, nodeB, nodeC] w0))) =
     [EvDial (Addr nodeA),
      EvHandshake (ProxyConn (TcpConn 0 (Addr nodeA)) nodeA),
      EvConnect (ProxyConn (TcpConn 0 (Addr nodeA)) nodeA) (Addr nodeB),
      EvHandshake (ProxyConn (ProxyConn (TcpConn 0 (Addr nodeA)) nodeA) nodeB),
      EvClose (ProxyConn (TcpConn 0 (Addr nodeA)) nodeA)] \<and>
   all_closed (ProxyConn (ProxyConn (TcpConn 0 (Addr nodeA)) nodeA) nodeB)
     (snd (the (travelNodes (DialTLS 0 env_B_handshake_fails (NewProxyChain [nodeA, nodeB, nodeC])) env_B_handshake_fails
       (NewProxyChain [nodeA, nodeB, nodeC]) [nodeA, nodeB, nodeC] w0)))"
proof -
  let ?c = "NewProxyChain [nodeA, nodeB, nodeC]"
  have off: "\<not> http2Enabled ?c" by (simp add: NewProxyChain_def)
  have AB: "Addr nodeA \<noteq> Addr nodeB" "Addr nodeC \<noteq> Addr nodeB"
    by (simp_all add: nodeA_def nodeB_def nodeC_def)
  note envs = env_ok_def env_connect_fails_def env_B_handshake_fails_def
  show ?thesis
    using travelNodes_three_nodes [of ?c env_ok w0 nodeA 0 nodeB nodeC]
      travelNodes_three_nodes [of ?c env_connect_fails w0 nodeA 0 nodeB nodeC "ExtError ''connect failed''"]
      travelNodes_three_nodes [of ?c env_B_handshake_fails w0 nodeA 0 nodeB nodeC "ExtError ''handshake failed''"]
      off AB
    by (simp add: envs w0_def)
qed

subsection \<open>The tunnel stream adapter\<close>

lemmas tunnel_defs = getHttp2Conn_def http2Connect_def Client_Do_def Http2Enabled_def io_Pipe_def
  Body_Close_def NewProxyConn_def Connect_def Close_def log_def

text \<open>What activation leaves on the chains \<open>[nodeB]\<close> and \<open>[nodeB, nodeC]\<close>, and the
  connection that the transport dials there with one unit of fuel.\<close>

lemma chain_B:
  "TryEnableHttp2 (NewProxyChain [nodeB]) =
     \<lparr>nodes = [nodeB], lastNode = Some nodeB, http2NodeIndex = 0, http2Enabled = True,
      http2Client = Some \<lparr>TLSClientConfig = \<lparr>InsecureSkipVerify = True, ServerName = ''b.example''\<rparr>,
                          dial_nodes = []\<rparr>\<rparr>"
  by (simp add: TryEnableHttp2_def NewProxyChain_def initHttp2Client_def Let_def nodeB_def)

lemma chain_BC:
  "TryEnableHttp2 (NewProxyChain [nodeB, nodeC]) =
     \<lparr>nodes = [nodeB, nodeC], lastNode = Some nodeC, http2NodeIndex = 0, http2Enabled = True,
      http2Client = Some \<lparr>TLSClientConfig = \<lparr>InsecureSkipVerify = True, ServerName = ''b.example''\<rparr>,
                          dial_nodes = []\<rparr>\<rparr>"
  by (simp add: TryEnableHttp2_def NewProxyChain_def initHttp2Client_def Let_def nodeB_def)

lemma transport_conn_first_dial:
  assumes "dial_nodes cl = []" and "pool w = []" and "dial_result E (trace w) addr = None"
  shows "transport_conn (DialTLS (Suc n) E c) E cl addr w =
           Some (Return (TlsClient (TcpConn (next_id w) addr) (TLSClientConfig cl)) None,
                 w\<lparr>trace := trace w @ [EvDial addr], live := live w @ [next_id w],
                   pool := [TlsClient (TcpConn (next_id w) addr) (TLSClientConfig cl)],
                   next_id := Suc (next_id w)\<rparr>)"
  using assms
  by (simp add: transport_conn_def dialWithNodes_def net_DialTimeout_def log_def)

text \<open>
  Claim C6. On a chain whose shortcut is enabled at a node of the registry, the request
  that \<open>getHttp2Conn\<close> sends has method CONNECT, scheme https, protocol HTTP/2.0, the
  shortcut node's address as host and authority, and the header \<open>Proxy-Switch: gost\<close>.
  Whatever response comes back once the transport has its connection, the call succeeds
  exactly when the status code is 200; on any other code it fails with the response's
  status text as its message, and the response body is closed when it returns.
\<close>

theorem getHttp2Conn_exchange:
  fixes c :: ProxyChain and E :: env and w w1 :: world and node :: ProxyNode and n :: nat
  defines "req \<equiv> \<lparr>Method = ''CONNECT'', URL_Scheme = ''https'', URL_Host = Addr node,
                    Header = [(''Proxy-Switch'', ''gost'')],
                    Proto = ''HTTP/2.0'', ProtoMajor = 2, ProtoMinor = 0,
                    Body = next_id w, Host = Addr node, ContentLength = - 1\<rparr>"
  defines "body \<equiv> next_id w1"
  defines "r \<equiv> the (getHttp2Conn (DialTLS n E c) E c w)"
  assumes on: "http2Enabled c"
    and node: "index (nodes c) (http2NodeIndex c) = Inr node"
    and client: "http2Client c = Some cl"
    and conn: "transport_conn (DialTLS n E c) E cl (Addr node) (w\<lparr>next_id := Suc (next_id w)\<rparr>) =
                 Some (Return tc None, w1)"
    and resp: "do_result E (trace w1) req = Inr (code, status)"
  shows "getHttp2Conn (DialTLS n E c) E c w \<noteq> None \<and>
         ((\<exists>cn. fst r = Return cn None) \<longleftrightarrow> code = 200) \<and>
         (code = 200 \<longrightarrow>
            fst r = Return (Http2Conn body (next_id w)) None \<and> trace (snd r) = trace w1 @ [EvDo req]) \<and>
         (code \<noteq> 200 \<longrightarrow>
            fst r = Return NilConn (Some (ErrorsNew status)) \<and>
            trace (snd r) = trace w1 @ [EvDo req, EvBodyClose body] \<and>
            body \<notin> set (live (snd r)))"
  using on node client conn resp
  unfolding r_def body_def req_def
  by (simp add: tunnel_defs Let_def)

theorem getHttp2Conn_exchange_witness:
  "http2Enabled (TryEnableHttp2 (NewProxyChain [nodeB])) \<and>
   index (nodes (TryEnableHttp2 (NewProxyChain [nodeB])))
         (http2NodeIndex (TryEnableHttp2 (NewProxyChain [nodeB]))) = Inr nodeB \<and>
   fst (the (getHttp2Conn (DialTLS (Suc 0) env_ok (TryEnableHttp2 (NewProxyChain [nodeB]))) env_ok
               (TryEnableHttp2 (NewProxyChain [nodeB])) w0)) =
     Return (Http2Conn 2 0) None \<and>
   fst (the (getHttp2Conn (DialTLS (Suc 0) env_503 (TryEnableHttp2 (NewProxyChain [nodeB]))) env_503
               (TryEnableHttp2 (NewProxyChain [nodeB])) w0)) =
     Return NilConn (Some (ErrorsNew ''503 Service Unavailable'')) \<and>
   trace (snd (the (getHttp2Conn (DialTLS (Suc 0) env_503 (TryEnableHttp2 (NewProxyChain [nodeB]))) env_503
                      (TryEnableHttp2 (NewProxyChain [nodeB])) w0))) =
     [EvDial ''b.example:443'',
      EvDo \<lparr>Method = ''CONNECT'', URL_Scheme = ''https'', URL_Host = ''b.example:443'',
            Header = [(''Proxy-Switch'', ''gost'')],
            Proto = ''HTTP/2.0'', ProtoMajor = 2, ProtoMinor = 0,
            Body = 0, Host = ''b.example:443'', ContentLength = - 1\<rparr>,
      EvBodyClose 2] \<and>
   2 \<notin> set (live (snd (the (getHttp2Conn (DialTLS (Suc 0) env_503 (TryEnableHttp2 (NewProxyChain [nodeB])))
                               env_503 (TryEnableHttp2 (NewProxyChain [nodeB])) w0))))"
proof -
  let ?c = "TryEnableHttp2 (NewProxyChain [nodeB])"
  let ?cl = "\<lparr>TLSClientConfig = \<lparr>InsecureSkipVerify = True, ServerName = ''b.example''\<rparr>,
              dial_nodes = []\<rparr>"
  let ?w = "w0\<lparr>next_id := Suc (next_id w0)\<rparr>"
  let ?tc = "TlsClient (TcpConn (next_id ?w) (Addr nodeB)) (TLSClientConfig ?cl)"
  let ?w1 = "?w\<lparr>trace := trace ?w @ [EvDial (Addr nodeB)], live := live ?w @ [next_id ?w],
                pool := [?tc], next_id := Suc (next_id ?w)\<rparr>"
  have on: "http2Enabled ?c" by (simp add: chain_B)
  have i: "index (nodes ?c) (http2NodeIndex ?c) = Inr nodeB" by (simp add: chain_B index_def)
  have cl: "http2Client ?c = Some ?cl" by (simp add: chain_B)
  have tr: "transport_conn (DialTLS (Suc 0) E ?c) E ?cl (Addr nodeB) ?w = Some (Return ?tc None, ?w1)"
    if "dial_result E (trace ?w) (Addr nodeB) = None" for E
    using transport_conn_first_dial [of ?cl ?w E "Addr nodeB" 0 ?c] that by (simp add: w0_def)
  have t1: "transport_conn (DialTLS (Suc 0) env_ok ?c) env_ok ?cl (Addr nodeB) ?w = Some (Return ?tc None, ?w1)"
    by (rule tr) (simp add: env_ok_def)
  have t2: "transport_conn (DialTLS (Suc 0) env_503 ?c) env_503 ?cl (Addr nodeB) ?w = Some (Return ?tc None, ?w1)"
    by (rule tr) (simp add: env_503_def env_ok_def)
  let ?req = "\<lparr>Method = ''CONNECT'', URL_Scheme = ''https'', URL_Host = Addr nodeB,
                Header = [(''Proxy-Switch'', ''gost'')],
                Proto = ''HTTP/2.0'', ProtoMajor = 2, ProtoMinor = 0,
                Body = next_id w0, Host = Addr nodeB, ContentLength = - 1\<rparr>"
  have r1: "do_result env_ok (trace ?w1) ?req = Inr (200, ''200 OK'')"
    by (simp add: env_ok_def)
  have r2: "do_result env_503 (trace ?w1) ?req = Inr (503, ''503 Service Unavailable'')"
    by (simp add: env_503_def env_ok_def)
  note u1 = getHttp2Conn_exchange [OF on i cl t1 r1]
  note u2 = getHttp2Conn_exchange [OF on i cl t2 r2]
  show ?thesis using u1 u2 on i by (simp add: w0_def nodeB_def numeral_2_eq_2)
qed

text \<open>
  Claim C7, as amended. Once the tunnel stream is open, \<open>http2Connect\<close> wraps it in a
  per-hop connection for the shortcut node and makes exactly one \<open>Connect(addr)\<close> call on
  it, and no handshake. When that call succeeds the tunnel stream itself is returned; when
  it fails, the wrapper is closed, which closes the tunnel stream, and the error is returned
  with no connection.
\<close>

theorem http2Connect_steps:
  fixes c :: ProxyChain and E :: env and w w1 :: world and node :: ProxyNode and addr :: string
    and n :: nat
  defines "req \<equiv> \<lparr>Method = ''CONNECT'', URL_Scheme = ''https'', URL_Host = Addr node,
                    Header = [(''Proxy-Switch'', ''gost'')],
                    Proto = ''HTTP/2.0'', ProtoMajor = 2, ProtoMinor = 0,
                    Body = next_id w, Host = Addr node, ContentLength = - 1\<rparr>"
  defines "tun \<equiv> Http2Conn (next_id w1) (next_id w)"
  defines "pc \<equiv> ProxyConn (Http2Conn (next_id w1) (next_id w)) node"
  defines "r \<equiv> the (http2Connect (DialTLS n E c) E c addr w)"
  assumes on: "http2Enabled c"
    and node: "index (nodes c) (http2NodeIndex c) = Inr node"
    and client: "http2Client c = Some cl"
    and conn: "transport_conn (DialTLS n E c) E cl (Addr node) (w\<lparr>next_id := Suc (next_id w)\<rparr>) =
                 Some (Return tc None, w1)"
    and resp: "do_result E (trace w1) req = Inr (200, status)"
  shows "http2Connect (DialTLS n E c) E c addr w \<noteq> None \<and>
         (connect_result E (trace w1 @ [EvDo req]) pc addr = None \<longrightarrow>
            fst r = Return tun None \<and>
            trace (snd r) = trace w1 @ [EvDo req, EvConnect pc addr]) \<and>
         (connect_result E (trace w1 @ [EvDo req]) pc addr = Some err \<longrightarrow>
            fst r = Return NilConn (Some err) \<and>
            trace (snd r) = trace w1 @ [EvDo req, EvConnect pc addr, EvClose pc] \<and>
            all_closed tun (snd r))"
  using on node client conn resp
  unfolding r_def pc_def tun_def req_def
  by (auto simp add: tunnel_defs Let_def all_closed_def split: option.splits)

theorem http2Connect_steps_witness:
  "http2Enabled (TryEnableHttp2 (NewProxyChain [nodeB, nodeC])) \<and>
   fst (the (http2Connect (DialTLS (Suc 0) env_ok (TryEnableHttp2 (NewProxyChain [nodeB, nodeC])))
               env_ok (TryEnableHttp2 (NewProxyChain [nodeB, nodeC])) ''t.example:80'' w0)) =
     Return (Http2Conn 2 0) None \<and>
   fst (the (http2Connect (DialTLS (Suc 0) env_connect_fails (TryEnableHttp2 (NewProxyChain [nodeB, nodeC])))
               env_connect_fails (TryEnableHttp2 (NewProxyChain [nodeB, nodeC])) ''t.example:80'' w0)) =
     Return NilConn (Some (ExtError ''connect failed'')) \<and>
   trace (snd (the (http2Connect (DialTLS (Suc 0) env_connect_fails (TryEnableHttp2 (NewProxyChain [nodeB, nodeC])))
               env_connect_fails (TryEnableHttp2 (NewProxyChain [nodeB, nodeC])) ''t.example:80'' w0))) =
     [EvDial ''b.example:443'',
      EvDo \<lparr>Method = ''CONNECT'', URL_Scheme = ''https'', URL_Host = ''b.example:443'',
            Header = [(''Proxy-Switch'', ''gost'')],
            Proto = ''HTTP/2.0'', ProtoMajor = 2, ProtoMinor = 0,
            Body = 0, Host = ''b.example:443'', ContentLength = - 1\<rparr>,
      EvConnect (ProxyConn (Http2Conn 2 0) nodeB) ''t.example:80'',
      EvClose (ProxyConn (Http2Conn 2 0) nodeB)] \<and>
   all_closed (Http2Conn 2 0)
     (snd (the (http2Connect (DialTLS (Suc 0) env_connect_fails (TryEnableHttp2 (NewProxyChain [nodeB, nodeC])))
               env_connect_fails (TryEnableHttp2 (NewProxyChain [nodeB, nodeC])) ''t.example:80'' w0)))"
proof -
  let ?c = "TryEnableHttp2 (NewProxyChain [nodeB, nodeC])"
  let ?cl = "\<lparr>TLSClientConfig = \<lparr>InsecureSkipVerify = True, ServerName = ''b.example''\<rparr>,
              dial_nodes = []\<rparr>"
  let ?w = "w0\<lparr>next_id := Suc (next_id w0)\<rparr>"
  let ?tc = "TlsClient (TcpConn (next_id ?w) (Addr nodeB)) (TLSClientConfig ?cl)"
  let ?w1 = "?w\<lparr>trace := trace ?w @ [EvDial (Addr nodeB)], live := live ?w @ [next_id ?w],
                pool := [?tc], next_id := Suc (next_id ?w)\<rparr>"
  have on: "http2Enabled ?c" by (simp add: chain_BC)
  have i: "index (nodes ?c) (http2NodeIndex ?c) = Inr nodeB" by (simp add: chain_BC index_def)
  have cl: "http2Client ?c = Some ?cl" by (simp add: chain_BC)
  have tr: "transport_conn (DialTLS (Suc 0) E ?c) E ?cl (Addr nodeB) ?w = Some (Return ?tc None, ?w1)"
    if "dial_result E (trace ?w) (Addr nodeB) = None" for E
    using transport_conn_first_dial [of ?cl ?w E "Addr nodeB" 0 ?c] that by (simp add: w0_def)
  have t1: "transport_conn (DialTLS (Suc 0) env_ok ?c) env_ok ?cl (Addr nodeB) ?w = Some (Return ?tc None, ?w1)"
    by (rule tr) (simp add: env_ok_def)
  have t2: "transport_conn (DialTLS (Suc 0) env_connect_fails ?c) env_connect_fails ?cl (Addr nodeB) ?w =
      Some (Return ?tc None, ?w1)"
    by (rule tr) (simp add: env_connect_fails_def env_ok_def)
  let ?req = "\<lparr>Method = ''CONNECT'', URL_Scheme = ''https'', URL_Host = Addr nodeB,
                Header = [(''Proxy-Switch'', ''gost'')],
                Proto = ''HTTP/2.0'', ProtoMajor = 2, ProtoMinor = 0,
                Body = next_id w0, Host = Addr nodeB, ContentLength = - 1\<rparr>"
  have r1: "do_result env_ok (trace ?w1) ?req = Inr (200, ''200 OK'')"
    by (simp add: env_ok_def)
  have r2: "do_result env_connect_fails (trace ?w1) ?req = Inr (200, ''200 OK'')"
    by (simp add: env_connect_fails_def env_ok_def)
  note u1 = http2Connect_steps [OF on i cl t1 r1, of "''t.example:80''"]
  note u2 = http2Connect_steps [OF on i cl t2 r2, of "''t.example:80''" "ExtError ''connect failed''"]
  have k1: "connect_result env_ok h p a = None" for h p a by (simp add: env_ok_def)
  have k2: "connect_result env_connect_fails h p a = Some (ExtError ''connect failed'')" for h p a
    by (simp add: env_connect_fails_def env_ok_def)
  show ?thesis using u1 u2 on by (simp add: k1 k2 w0_def nodeB_def numeral_2_eq_2)
qed

text \<open>
  There is no handshake step: on the chain \<open>[nodeB, nodeC]\<close>, whose shortcut node is the
  first node, a successful run dials the shortcut node for the transport, sends the
  request, makes one \<open>Connect\<close> call and no \<open>Handshake\<close> call.
\<close>

theorem http2Connect_no_handshake_counterexample:
  "http2Connect (DialTLS (Suc 0) env_ok (TryEnableHttp2 (NewProxyChain [nodeB, nodeC])))
       env_ok (TryEnableHttp2 (NewProxyChain [nodeB, nodeC])) ''t.example:80'' w0 =
     Some (Return (Http2Conn 2 0) None,
           \<lparr>trace = [EvDial ''b.example:443'',
                      EvDo \<lparr>Method = ''CONNECT'', URL_Scheme = ''https'', URL_Host = ''b.example:443'',
                            Header = [(''Proxy-Switch'', ''gost'')],
                            Proto = ''HTTP/2.0'', ProtoMajor = 2, ProtoMinor = 0,
                            Body = 0, Host = ''b.example:443'', ContentLength = - 1\<rparr>,
                      EvConnect (ProxyConn (Http2Conn 2 0) nodeB) ''t.example:80''],
            live = [1, 2], keepalive = [],
            pool = [TlsClient (TcpConn 1 ''b.example:443'')
                      \<lparr>InsecureSkipVerify = True, ServerName = ''b.example''\<rparr>],
            next_id = 3\<rparr>) \<and>
   length (filter is_connect
     (trace (snd (the (http2Connect (DialTLS (Suc 0) env_ok (TryEnableHttp2 (NewProxyChain [nodeB, nodeC])))
       env_ok (TryEnableHttp2 (NewProxyChain [nodeB, nodeC])) ''t.example:80'' w0))))) = 1 \<and>
   length (filter is_handshake
     (trace (snd (the (http2Connect (DialTLS (Suc 0) env_ok (TryEnableHttp2 (NewProxyChain [nodeB, nodeC])))
       env_ok (TryEnableHttp2 (NewProxyChain [nodeB, nodeC])) ''t.example:80'' w0))))) = 0"
proof -
  have a: "Addr nodeB = ''b.example:443''" by (simp add: nodeB_def)
  show ?thesis
    by (simp add: chain_BC tunnel_defs transport_conn_def dialWithNodes_def net_DialTimeout_def
        index_def Let_def env_ok_def w0_def a numeral_2_eq_2 numeral_3_eq_3)
qed

subsection \<open>The entry points\<close>

lemma slice_from_Suc:
  "i < length xs \<Longrightarrow> slice_from xs (int i + 1) = Inr (drop (Suc i) xs)"
  by (simp add: slice_from_def nat_add_distrib)

text \<open>With the shortcut enabled at index \<open>i \<ge> 1\<close>, every path to the transport panics.\<close>

lemma dialWithNodes_prefix_panics:
  assumes "http2Enabled c" and "http2NodeIndex c = int i" and "1 \<le> i" and "length ns = i"
  shows "dialWithNodes D E c addr ns w = Some (Panics SliceBoundsOutOfRange, w)"
  using assms by (simp add: dialWithNodes_def Http2Enabled_def slice_from_def)

lemma getHttp2Conn_prefix_panics:
  assumes on: "http2Enabled c" and ix: "http2NodeIndex c = int i" and i1: "1 \<le> i"
    and len: "i < length (nodes c)" and cl: "http2Client c = Some cl"
    and dn: "dial_nodes cl = take i (nodes c)" and pool: "pool w = []"
  shows "getHttp2Conn (DialTLS (Suc n) E c) E c w =
           Some (Panics SliceBoundsOutOfRange, w\<lparr>next_id := Suc (next_id w)\<rparr>)"
proof -
  have l: "length (dial_nodes cl) = i" using dn len by simp
  have d: "DialTLS (Suc n) E c cl a cfg w' = Some (Panics SliceBoundsOutOfRange, w')" for a cfg w'
    using dialWithNodes_prefix_panics [OF on ix i1 l] by simp
  have t: "transport_conn (DialTLS (Suc n) E c) E cl a (w\<lparr>next_id := Suc (next_id w)\<rparr>) =
      Some (Panics SliceBoundsOutOfRange, w\<lparr>next_id := Suc (next_id w)\<rparr>)" for a
    using pool by (simp add: transport_conn_def d del: DialTLS.simps)
  have ixn: "index (nodes c) (http2NodeIndex c) = Inr (nodes c ! i)"
    using ix len by (simp add: index_def)
  show ?thesis
    using on ixn cl t
    by (simp add: getHttp2Conn_def Client_Do_def Http2Enabled_def io_Pipe_def Let_def
        del: DialTLS.simps)
qed

text \<open>
  Claim C8. The code does not do what the claim says. After activation with the shortcut
  node at index \<open>i \<ge> 1\<close>, the first \<open>GetConn\<close> (the transport holds no connection yet)
  reaches \<open>getHttp2Conn\<close>, directly when node \<open>i\<close> is the last node and through
  \<open>travelNodes\<close> and \<open>http2Connect\<close> otherwise; the transport then calls its dial
  function, which panics on \<open>nodes[i+1:]\<close>. \<open>GetConn\<close> panics before any network call:
  no tunnel stream is returned and no chain is built over the nodes after \<open>i\<close>.
\<close>

theorem GetConn_shortcut_panics:
  assumes on: "http2Enabled c" and ix: "http2NodeIndex c = int i" and i1: "1 \<le> i"
    and len: "i < length (nodes c)" and cl: "http2Client c = Some cl"
    and dn: "dial_nodes cl = take i (nodes c)" and pool: "pool w = []"
  shows "GetConn (DialTLS (Suc n) E c) E c w =
           Some (Panics SliceBoundsOutOfRange, w\<lparr>next_id := Suc (next_id w)\<rparr>)"
proof -
  note g = getHttp2Conn_prefix_panics [OF on ix i1 len cl dn pool, of n E]
  have sl: "slice_from (nodes c) (http2NodeIndex c + 1) = Inr (drop (Suc i) (nodes c))"
    using slice_from_Suc [OF len] ix by simp
  have ne: "nodes c \<noteq> []" using len by auto
  show ?thesis
  proof (cases "drop (Suc i) (nodes c)")
    case Nil
    then show ?thesis using on ne sl g
      by (simp add: GetConn_def Http2Enabled_def del: DialTLS.simps)
  next
    case (Cons node rest)
    have "travelNodes (DialTLS (Suc n) E c) E c (node # rest) w =
        Some (Panics SliceBoundsOutOfRange, w\<lparr>next_id := Suc (next_id w)\<rparr>)"
      using on g
      by (simp add: travelNodes_def travelNodes_body_def http2Connect_def Http2Enabled_def
          del: DialTLS.simps)
    then show ?thesis using on ne sl Cons
      by (simp add: GetConn_def Http2Enabled_def del: DialTLS.simps)
  qed
qed

theorem GetConn_shortcut_panics_witness:
  "http2Enabled (TryEnableHttp2 (NewProxyChain [nodeA, nodeB])) \<and>
   http2NodeIndex (TryEnableHttp2 (NewProxyChain [nodeA, nodeB])) = 1 \<and>
   GetConn (DialTLS (Suc 0) env_ok (TryEnableHttp2 (NewProxyChain [nodeA, nodeB]))) env_ok
       (TryEnableHttp2 (NewProxyChain [nodeA, nodeB])) w0 =
     Some (Panics SliceBoundsOutOfRange,
           \<lparr>trace = [], live = [], keepalive = [], pool = [], next_id = 1\<rparr>) \<and>
   http2Enabled (TryEnableHttp2 (NewProxyChain [nodeA, nodeB, nodeC])) \<and>
   http2NodeIndex (TryEnableHttp2 (NewProxyChain [nodeA, nodeB, nodeC])) = 1 \<and>
   GetConn (DialTLS (Suc 0) env_ok (TryEnableHttp2 (NewProxyChain [nodeA, nodeB, nodeC]))) env_ok
       (TryEnableHttp2 (NewProxyChain [nodeA, nodeB, nodeC])) w0 =
     Some (Panics SliceBoundsOutOfRange,
           \<lparr>trace = [], live = [], keepalive = [], pool = [], next_id = 1\<rparr>)"
proof -
  let ?c2 = "TryEnableHttp2 (NewProxyChain [nodeA, nodeB])"
  let ?c3 = "TryEnableHttp2 (NewProxyChain [nodeA, nodeB, nodeC])"
  let ?cl = "\<lparr>TLSClientConfig = \<lparr>InsecureSkipVerify = True, ServerName = ''b.example''\<rparr>,
              dial_nodes = [nodeA]\<rparr>"
  have c2: "http2Enabled ?c2" "http2NodeIndex ?c2 = int 1" "nodes ?c2 = [nodeA, nodeB]"
    "http2Client ?c2 = Some ?cl"
    by (simp_all add: TryEnableHttp2_def NewProxyChain_def initHttp2Client_def Let_def nodeA_def nodeB_def)
  have c3: "http2Enabled ?c3" "http2NodeIndex ?c3 = int 1" "nodes ?c3 = [nodeA, nodeB, nodeC]"
    "http2Client ?c3 = Some ?cl"
    by (simp_all add: TryEnableHttp2_def NewProxyChain_def initHttp2Client_def Let_def nodeA_def nodeB_def)
  have l2: "1 < length (nodes ?c2)" and d2: "dial_nodes ?cl = take 1 (nodes ?c2)" by (simp_all add: c2)
  have l3: "1 < length (nodes ?c3)" and d3: "dial_nodes ?cl = take 1 (nodes ?c3)" by (simp_all add: c3)
  have p: "pool w0 = []" by (simp add: w0_def)
  note u2 = GetConn_shortcut_panics [OF c2(1) c2(2) _ l2 c2(4) d2 p, of 0 env_ok]
  note u3 = GetConn_shortcut_panics [OF c3(1) c3(2) _ l3 c3(4) d3 p, of 0 env_ok]
  have w: "w0\<lparr>next_id := Suc (next_id w0)\<rparr> =
      \<lparr>trace = [], live = [], keepalive = [], pool = [], next_id = 1\<rparr>"
    by (simp add: w0_def)
  have i1: "http2NodeIndex ?c2 = 1" "http2NodeIndex ?c3 = 1" using c2(2) c3(2) by simp_all
  show ?thesis using u2 u3 c2(1) c3(1) i1 unfolding w by simp
qed

subsection \<open>Chains that were never activated\<close>

lemma only_adds_iff: "only_adds P w w' \<longleftrightarrow> (\<exists>evs. trace w' = trace w @ evs \<and> list_all P evs)"
proof
  assume h: "only_adds P w w'"
  have "trace w' = take (length (trace w)) (trace w') @ drop (length (trace w)) (trace w')"
    by simp
  with h show "\<exists>evs. trace w' = trace w @ evs \<and> list_all P evs"
    unfolding only_adds_def by metis
next
  assume "\<exists>evs. trace w' = trace w @ evs \<and> list_all P evs"
  then show "only_adds P w w'" by (auto simp: only_adds_def)
qed

lemma spec_hop_calls_no_tunnel: "list_all (\<lambda>e. \<not> is_tunnel e) (spec_hop_calls cn ns)"
  by (induction ns arbitrary: cn) simp_all

lemma spec_chain_calls_no_tunnel: "list_all (\<lambda>e. \<not> is_tunnel e) (spec_chain_calls i ns)"
  by (cases ns) (simp_all add: spec_hop_calls_no_tunnel)

lemma spec_dial_calls_no_tunnel: "list_all (\<lambda>e. \<not> is_tunnel e) (spec_dial_calls i ns addr)"
  by (simp add: spec_dial_calls_def spec_chain_calls_no_tunnel)

lemma list_all_take: "list_all P xs \<Longrightarrow> list_all P (take k xs)"
  by (auto simp: list_all_iff dest: in_set_takeD)

lemma is_close_no_tunnel: "list_all is_close cs \<Longrightarrow> list_all (\<lambda>e. \<not> is_tunnel e) cs"
proof (induction cs)
  case Nil
  show ?case by simp
next
  case (Cons e cs)
  then show ?case by (cases e) simp_all
qed

lemma run_only_adds:
  assumes "trace w' = trace w @ take k calls @ cs"
    and "list_all (\<lambda>e. \<not> is_tunnel e) calls" and "list_all is_close cs"
  shows "only_adds (\<lambda>e. \<not> is_tunnel e) w w'"
  unfolding only_adds_iff
  using assms list_all_take [of "\<lambda>e. \<not> is_tunnel e" calls k] is_close_no_tunnel [of cs]
  by auto

text \<open>The loop of \<open>travelNodes\<close> makes the hop calls of the spec, in order, up to the first failure.\<close>

lemma travel_rest_run:
  "\<exists>k \<le> length (spec_hop_calls cn ns).
     trace (snd (travel_rest E cn ns w)) = trace w @ take k (spec_hop_calls cn ns) \<and>
     (snd (fst (travel_rest E cn ns w)) = None \<longrightarrow>
        k = length (spec_hop_calls cn ns) \<and> fst (fst (travel_rest E cn ns w)) = spec_layers cn ns)"
proof (induction ns arbitrary: cn w)
  case Nil
  show ?case by simp
next
  case (Cons node rest)
  let ?c = "EvConnect cn (Addr node)"
  let ?pc = "ProxyConn cn node"
  let ?h = "EvHandshake ?pc"
  let ?w1 = "log ?c w"
  let ?w2 = "log ?h ?w1"
  show ?case
  proof (cases "connect_result E (trace w) cn (Addr node)")
    case (Some e)
    then have "travel_rest E cn (node # rest) w = ((cn, Some e), ?w1)"
      by (simp add: Connect_def)
    then show ?thesis by (intro exI [of _ 1]) (simp add: log_def)
  next
    case None
    note c = None
    show ?thesis
    proof (cases "handshake_result E (trace ?w1) ?pc")
      case (Some e)
      then have "travel_rest E cn (node # rest) w = ((cn, Some e), ?w2)"
        using c by (simp add: Connect_def Handshake_def NewProxyConn_def)
      then show ?thesis by (intro exI [of _ 2]) (simp add: log_def)
    next
      case None
      then have eq: "travel_rest E cn (node # rest) w = travel_rest E ?pc rest ?w2"
        using c by (simp add: Connect_def Handshake_def NewProxyConn_def Let_def)
      from Cons.IH [of ?pc ?w2] obtain k where k: "k \<le> length (spec_hop_calls ?pc rest)"
        "trace (snd (travel_rest E ?pc rest ?w2)) = trace ?w2 @ take k (spec_hop_calls ?pc rest)"
        "snd (fst (travel_rest E ?pc rest ?w2)) = None \<longrightarrow>
           k = length (spec_hop_calls ?pc rest) \<and>
           fst (fst (travel_rest E ?pc rest ?w2)) = spec_layers ?pc rest"
        by (elim exE conjE) (rule that)
      have tr: "trace (snd (travel_rest E cn (node # rest) w)) =
          trace w @ take (Suc (Suc k)) (spec_hop_calls cn (node # rest))"
        unfolding eq k(2) by (simp add: log_def)
      have le: "Suc (Suc k) \<le> length (spec_hop_calls cn (node # rest))" using k(1) by simp
      have ok: "snd (fst (travel_rest E cn (node # rest) w)) = None \<longrightarrow>
          Suc (Suc k) = length (spec_hop_calls cn (node # rest)) \<and>
          fst (fst (travel_rest E cn (node # rest) w)) = spec_layers cn (node # rest)"
        unfolding eq using k(3) by simp
      show ?thesis by (rule exI [of _ "Suc (Suc k)"]) (intro conjI le tr ok)
    qed
  qed
qed


lemma travel_rest_not_nil: "cn \<noteq> NilConn \<Longrightarrow> fst (fst (travel_rest E cn ns w)) \<noteq> NilConn"
  by (induction ns arbitrary: cn w)
    (auto simp: Connect_def Handshake_def NewProxyConn_def Let_def split: option.splits)

text \<open>
  With the shortcut disabled, \<open>travelNodes\<close> makes the calls of the spec's raw chain, in
  order, up to the first failure, then at most closes what it built.
\<close>

lemma travelNodes_raw_run:
  assumes off: "\<not> http2Enabled c" and ne: "ns \<noteq> []"
  shows "\<exists>r w' k cs. travelNodes D E c ns w = Some (r, w') \<and>
           k \<le> length (spec_chain_calls (next_id w) ns) \<and>
           trace w' = trace w @ take k (spec_chain_calls (next_id w) ns) @ cs \<and>
           list_all is_close cs \<and> (\<forall>p. r \<noteq> Panics p) \<and>
           (\<forall>cn. r = Return cn None \<longrightarrow>
              cn = spec_chain_conn (next_id w) ns \<and> cn \<noteq> NilConn \<and>
              k = length (spec_chain_calls (next_id w) ns) \<and> cs = [])"
proof -
  obtain node rest where ns: "ns = node # rest" using ne by (cases ns) auto
  let ?tcp = "TcpConn (next_id w) (Addr node)"
  let ?pc = "ProxyConn ?tcp node"
  let ?calls = "spec_chain_calls (next_id w) ns"
  have calls: "?calls = EvDial (Addr node) # EvHandshake ?pc # spec_hop_calls ?pc rest"
    by (simp add: ns)
  show ?thesis
  proof (cases "dial_result E (trace w) (Addr node)")
    case (Some e)
    then have "travelNodes D E c ns w = Some (Return NilConn (Some e), log (EvDial (Addr node)) w)"
      using off by (simp add: ns engine_defs)
    then show ?thesis
      by (intro exI [of _ "Return NilConn (Some e)"] exI [of _ "log (EvDial (Addr node)) w"]
          exI [of _ 1] exI [of _ "[]"]) (simp add: calls log_def)
  next
    case None
    note d = None
    let ?w1 = "(log (EvDial (Addr node)) w)\<lparr>live := live w @ [next_id w], next_id := Suc (next_id w)\<rparr>"
    let ?w2 = "setKeepAlive ?tcp ?w1"
    let ?w3 = "log (EvHandshake ?pc) ?w2"
    have t3: "trace ?w3 = trace w @ [EvDial (Addr node), EvHandshake ?pc]"
      by (simp add: log_def setKeepAlive_def)
    show ?thesis
    proof (cases "handshake_result E (trace w @ [EvDial (Addr node)]) ?pc")
      case (Some e)
      then have "travelNodes D E c ns w = Some (Return NilConn (Some e), ?w3)"
        using off d by (simp add: ns engine_defs)
      then show ?thesis using t3
        by (intro exI [of _ "Return NilConn (Some e)"] exI [of _ ?w3]
            exI [of _ 2] exI [of _ "[]"]) (simp add: calls)
    next
      case None
      obtain cn err w4 where rest: "travel_rest E ?pc rest ?w3 = ((cn, err), w4)"
        by (cases "travel_rest E ?pc rest ?w3") auto
      from travel_rest_run [where cn = ?pc and ns = rest and E = E and w = ?w3] rest
      obtain k where k: "k \<le> length (spec_hop_calls ?pc rest)"
        "trace w4 = trace ?w3 @ take k (spec_hop_calls ?pc rest)"
        "err = None \<longrightarrow> k = length (spec_hop_calls ?pc rest) \<and> cn = spec_layers ?pc rest"
        by auto
      have cnn: "cn \<noteq> NilConn" using travel_rest_not_nil [where cn = ?pc and ns = rest and E = E and w = ?w3] rest by simp
      have body: "travelNodes_body D E c ns w = Some (Return cn err, w4)"
        using off d None rest
        by (simp add: ns travelNodes_body_def Http2Enabled_def net_DialTimeout_def setKeepAlive_def
            NewProxyConn_def Handshake_def log_def)
      have t4: "trace w4 = trace w @ take (Suc (Suc k)) ?calls"
        using k(2) t3 by (simp add: calls)
      show ?thesis
      proof (cases err)
        case None
        then have "travelNodes D E c ns w = Some (Return cn None, w4)"
          using body by (simp add: travelNodes_def)
        then show ?thesis using t4 k None cnn
          by (intro exI [of _ "Return cn None"] exI [of _ w4] exI [of _ "Suc (Suc k)"] exI [of _ "[]"])
            (simp add: calls ns)
      next
        case (Some e)
        then have "travelNodes D E c ns w = Some (Return NilConn (Some e), Close cn w4)"
          using body cnn by (simp add: travelNodes_def)
        moreover have "trace (Close cn w4) = trace w @ take (Suc (Suc k)) ?calls @ [EvClose cn]"
          using t4 by (simp add: Close_def log_def)
        ultimately show ?thesis using k(1)
          by (intro exI [of _ "Return NilConn (Some e)"] exI [of _ "Close cn w4"]
              exI [of _ "Suc (Suc k)"] exI [of _ "[EvClose cn]"]) (simp add: calls)
      qed
    qed
  qed
qed

text \<open>With the shortcut disabled, \<open>GetConn\<close> and \<open>Dial\<close> run the spec's raw chain.\<close>

lemma GetConn_raw_run:
  assumes off: "\<not> http2Enabled c"
  shows "\<exists>r w' k cs. GetConn D E c w = Some (r, w') \<and>
           trace w' = trace w @ take k (spec_chain_calls (next_id w) (nodes c)) @ cs \<and>
           list_all is_close cs \<and> (\<forall>p. r \<noteq> Panics p) \<and>
           (\<forall>cn. r = Return cn None \<longrightarrow>
              cn = spec_chain_conn (next_id w) (nodes c) \<and>
              trace w' = trace w @ spec_chain_calls (next_id w) (nodes c))"
proof (cases "nodes c = []")
  case True
  then have "GetConn D E c w = Some (Return NilConn (Some ErrEmptyChain), w)"
    by (simp add: GetConn_def)
  then show ?thesis
    by (intro exI [of _ "Return NilConn (Some ErrEmptyChain)"] exI [of _ w] exI [of _ 0]
        exI [of _ "[]"]) simp
next
  case False
  then have g: "GetConn D E c w = travelNodes D E c (nodes c) w"
    using off by (simp add: GetConn_def Http2Enabled_def)
  from travelNodes_raw_run [OF off False, of D E w] obtain r w' k cs where
    t: "travelNodes D E c (nodes c) w = Some (r, w')"
      "trace w' = trace w @ take k (spec_chain_calls (next_id w) (nodes c)) @ cs"
      "list_all is_close cs" "\<forall>p. r \<noteq> Panics p"
      "\<forall>cn. r = Return cn None \<longrightarrow>
         cn = spec_chain_conn (next_id w) (nodes c) \<and> cn \<noteq> NilConn \<and>
         k = length (spec_chain_calls (next_id w) (nodes c)) \<and> cs = []"
    by (elim exE conjE) (rule that)
  have s: "\<forall>cn. r = Return cn None \<longrightarrow>
              cn = spec_chain_conn (next_id w) (nodes c) \<and>
              trace w' = trace w @ spec_chain_calls (next_id w) (nodes c)"
    using t(2) t(5) by auto
  show ?thesis
    unfolding g
    by (rule exI [of _ r], rule exI [of _ w'], rule exI [of _ k], rule exI [of _ cs])
      (intro conjI t(1) t(2) t(3) t(4) s)
qed

lemma Dial_raw_run:
  fixes addr :: string
  defines "target \<equiv> (if CHR '':'' \<notin> set addr then addr @ '':80'' else addr)"
  assumes off: "\<not> http2Enabled c"
  shows "\<exists>r w' k cs. Dial D E c addr w = Some (r, w') \<and>
           trace w' = trace w @ take k (spec_dial_calls (next_id w) (nodes c) target) @ cs \<and>
           list_all is_close cs \<and> (\<forall>p. r \<noteq> Panics p) \<and>
           (\<forall>cn. r = Return cn None \<longrightarrow>
              cn = spec_dial_conn (next_id w) (nodes c) target \<and>
              trace w' = trace w @ spec_dial_calls (next_id w) (nodes c) target)"
proof (cases "nodes c = []")
  case True
  let ?r = "fst (net_DialTimeout E target w)"
  let ?w' = "snd (net_DialTimeout E target w)"
  have d: "Dial D E c addr w = Some (?r, ?w')"
    using True by (simp add: Dial_def dialWithNodes_def target_def)
  have tr: "trace ?w' = trace w @ take 1 (spec_dial_calls (next_id w) (nodes c) target) @ []"
    using True by (simp add: net_DialTimeout_def spec_dial_calls_def log_def split: option.splits)
  have np: "\<forall>p. ?r \<noteq> Panics p"
    by (simp add: net_DialTimeout_def split: option.splits)
  have s: "\<forall>cn. ?r = Return cn None \<longrightarrow>
              cn = spec_dial_conn (next_id w) (nodes c) target \<and>
              trace ?w' = trace w @ spec_dial_calls (next_id w) (nodes c) target"
    using True
    by (simp add: net_DialTimeout_def spec_dial_calls_def spec_dial_conn_def log_def
        split: option.splits)
  show ?thesis
    by (rule exI [of _ ?r], rule exI [of _ ?w'], rule exI [of _ 1], rule exI [of _ "[]"])
      (intro conjI d tr np s, simp)
next
  case False
  let ?calls = "spec_chain_calls (next_id w) (nodes c)"
  let ?pc = "spec_chain_conn (next_id w) (nodes c)"
  have dc: "spec_dial_calls (next_id w) (nodes c) target = ?calls @ [EvConnect ?pc target]"
    and dn: "spec_dial_conn (next_id w) (nodes c) target = ?pc"
    using False by (simp_all add: spec_dial_calls_def spec_dial_conn_def)
  from travelNodes_raw_run [OF off False, of D E w] obtain r w1 k cs where
    t: "travelNodes D E c (nodes c) w = Some (r, w1)"
      "k \<le> length ?calls"
      "trace w1 = trace w @ take k ?calls @ cs"
      "list_all is_close cs" "\<forall>p. r \<noteq> Panics p"
      "\<forall>cn. r = Return cn None \<longrightarrow>
         cn = ?pc \<and> cn \<noteq> NilConn \<and> k = length ?calls \<and> cs = []"
    by (elim exE conjE) (rule that)
  have dd: "Dial D E c addr w = dialWithNodes D E c target (nodes c) w"
    by (simp add: Dial_def target_def)
  have unf: "Dial D E c addr w =
      (case travelNodes D E c (nodes c) w of
         None \<Rightarrow> None
       | Some (Panics p, w1) \<Rightarrow> Some (Panics p, w1)
       | Some (Return pc (Some err), w1) \<Rightarrow> Some (Return NilConn (Some err), w1)
       | Some (Return pc None, w1) \<Rightarrow>
           (case Connect E pc target w1 of
              (Some err, w2) \<Rightarrow> Some (Return NilConn (Some err), Close pc w2)
            | (None, w2) \<Rightarrow> Some (Return pc None, w2)))"
    unfolding dd using off False by (simp add: dialWithNodes_def Http2Enabled_def)
  show ?thesis
  proof (cases r)
    case (Panics p)
    with t(5) show ?thesis by simp
  next
    case (Return cn err)
    show ?thesis
    proof (cases err)
      case (Some e)
      have d: "Dial D E c addr w = Some (Return NilConn (Some e), w1)"
        unfolding unf using t(1) Return Some by simp
      have tr: "trace w1 = trace w @ take k (spec_dial_calls (next_id w) (nodes c) target) @ cs"
        using t(2) t(3) by (simp add: dc)
      show ?thesis
        by (rule exI [of _ "Return NilConn (Some e)"], rule exI [of _ w1], rule exI [of _ k],
            rule exI [of _ cs]) (intro conjI d tr t(4), simp_all)
    next
      case None
      with t(6) Return have ok: "cn = ?pc" "k = length ?calls" "cs = []" by simp_all
      have t1: "trace w1 = trace w @ ?calls" using t(3) ok by simp
      show ?thesis
      proof (cases "connect_result E (trace w1) cn target")
        case None
        let ?w2 = "log (EvConnect cn target) w1"
        have d: "Dial D E c addr w = Some (Return cn None, ?w2)"
          unfolding unf using t(1) Return \<open>err = None\<close> None by (simp add: Connect_def)
        have full: "trace ?w2 = trace w @ spec_dial_calls (next_id w) (nodes c) target"
          using t1 ok(1) by (simp add: dc log_def)
        have tr: "trace ?w2 = trace w @
            take (Suc (length ?calls)) (spec_dial_calls (next_id w) (nodes c) target) @ []"
          using full by (simp add: dc)
        have s: "\<forall>cn'. Return cn None = Return cn' None \<longrightarrow>
              cn' = spec_dial_conn (next_id w) (nodes c) target \<and>
              trace ?w2 = trace w @ spec_dial_calls (next_id w) (nodes c) target"
          using full ok(1) dn by simp
        show ?thesis
          by (rule exI [of _ "Return cn None"], rule exI [of _ ?w2],
              rule exI [of _ "Suc (length ?calls)"], rule exI [of _ "[]"])
            (intro conjI d tr s, simp_all)
      next
        case (Some e)
        let ?w2 = "Close cn (log (EvConnect cn target) w1)"
        have d: "Dial D E c addr w = Some (Return NilConn (Some e), ?w2)"
          unfolding unf using t(1) Return \<open>err = None\<close> Some by (simp add: Connect_def)
        have tr: "trace ?w2 = trace w @
            take (Suc (length ?calls)) (spec_dial_calls (next_id w) (nodes c) target) @ [EvClose cn]"
          using t1 ok(1) by (simp add: dc log_def Close_def)
        show ?thesis
          by (rule exI [of _ "Return NilConn (Some e)"], rule exI [of _ ?w2],
              rule exI [of _ "Suc (length ?calls)"], rule exI [of _ "[EvClose cn]"])
            (intro conjI d tr, simp_all)
      qed
    qed
  qed
qed

lemma AddProxyNodeString_shortcut_state:
  "http2Enabled (snd (AddProxyNodeString E c sns)) = http2Enabled c \<and>
   http2NodeIndex (snd (AddProxyNodeString E c sns)) = http2NodeIndex c \<and>
   http2Client (snd (AddProxyNodeString E c sns)) = http2Client c"
  by (induction sns arbitrary: c) (auto simp: AddProxyNode_def split: sum.splits)

lemma never_activated_state:
  "never_activated E c \<Longrightarrow> \<not> http2Enabled c \<and> http2NodeIndex c = - 1 \<and> http2Client c = None"
proof (induction rule: never_activated.induct)
  case (created ns)
  show ?case by (simp add: NewProxyChain_def)
next
  case (added c ns)
  then show ?case by (simp add: AddProxyNode_def)
next
  case (added_strings c sns)
  then show ?case by (simp add: AddProxyNodeString_shortcut_state)
next
  case (activated_empty c)
  then show ?case by (simp add: TryEnableHttp2_def)
qed

text \<open>
  Claim C10. On a chain where activation was never invoked, or was invoked only while the
  registry was empty, the shortcut is disabled, its index is \<open>-1\<close> and there is no
  shortcut client. Every \<open>GetConn\<close> and every \<open>Dial\<close> on such a chain returns
  (with any fuel, and never by a panic) and builds over raw TCP and the whole node list,
  whatever the transport kinds of the nodes: the calls it makes are the calls of the spec's
  raw chain over \<open>nodes c\<close> (for \<open>Dial\<close>: followed by the connect to the target, with
  \<open>:80\<close> added to a target without a port), in order, up to the first failure, followed
  at most by closing what was built; none of them is a tunnel call; and when it succeeds,
  all of these calls were made and the connection returned is the last layer, over every
  node of the list.
\<close>

theorem never_activated_raw_only:
  fixes addr :: string
  defines "target \<equiv> (if CHR '':'' \<notin> set addr then addr @ '':80'' else addr)"
  assumes na: "never_activated E c"
  shows "\<not> http2Enabled c \<and> http2NodeIndex c = - 1 \<and> http2Client c = None \<and>
         (\<exists>r w' k cs. GetConn (DialTLS n E c) E c w = Some (r, w') \<and>
            trace w' = trace w @ take k (spec_chain_calls (next_id w) (nodes c)) @ cs \<and>
            list_all is_close cs \<and> (\<forall>p. r \<noteq> Panics p) \<and>
            only_adds (\<lambda>e. \<not> is_tunnel e) w w' \<and>
            (\<forall>cn. r = Return cn None \<longrightarrow>
               cn = spec_chain_conn (next_id w) (nodes c) \<and>
               trace w' = trace w @ spec_chain_calls (next_id w) (nodes c))) \<and>
         (\<exists>r w' k cs. Dial (DialTLS n E c) E c addr w = Some (r, w') \<and>
            trace w' = trace w @ take k (spec_dial_calls (next_id w) (nodes c) target) @ cs \<and>
            list_all is_close cs \<and> (\<forall>p. r \<noteq> Panics p) \<and>
            only_adds (\<lambda>e. \<not> is_tunnel e) w w' \<and>
            (\<forall>cn. r = Return cn None \<longrightarrow>
               cn = spec_dial_conn (next_id w) (nodes c) target \<and>
               trace w' = trace w @ spec_dial_calls (next_id w) (nodes c) target))"
proof -
  note st = never_activated_state [OF na]
  then have off: "\<not> http2Enabled c" by simp
  from GetConn_raw_run [OF off, of "DialTLS n E c" E w] obtain r w' k cs where
    g: "GetConn (DialTLS n E c) E c w = Some (r, w')"
      "trace w' = trace w @ take k (spec_chain_calls (next_id w) (nodes c)) @ cs"
      "list_all is_close cs" "\<forall>p. r \<noteq> Panics p"
      "\<forall>cn. r = Return cn None \<longrightarrow>
         cn = spec_chain_conn (next_id w) (nodes c) \<and>
         trace w' = trace w @ spec_chain_calls (next_id w) (nodes c)"
    by (elim exE conjE) (rule that)
  have go: "only_adds (\<lambda>e. \<not> is_tunnel e) w w'"
    using g(2) spec_chain_calls_no_tunnel g(3) by (rule run_only_adds)
  have G: "\<exists>r w' k cs. GetConn (DialTLS n E c) E c w = Some (r, w') \<and>
            trace w' = trace w @ take k (spec_chain_calls (next_id w) (nodes c)) @ cs \<and>
            list_all is_close cs \<and> (\<forall>p. r \<noteq> Panics p) \<and>
            only_adds (\<lambda>e. \<not> is_tunnel e) w w' \<and>
            (\<forall>cn. r = Return cn None \<longrightarrow>
               cn = spec_chain_conn (next_id w) (nodes c) \<and>
               trace w' = trace w @ spec_chain_calls (next_id w) (nodes c))"
    by (rule exI [of _ r], rule exI [of _ w'], rule exI [of _ k], rule exI [of _ cs])
      (intro conjI g go)
  from Dial_raw_run [OF off, of "DialTLS n E c" E addr w, folded target_def]
  obtain r2 w2 k2 cs2 where
    d: "Dial (DialTLS n E c) E c addr w = Some (r2, w2)"
      "trace w2 = trace w @ take k2 (spec_dial_calls (next_id w) (nodes c) target) @ cs2"
      "list_all is_close cs2" "\<forall>p. r2 \<noteq> Panics p"
      "\<forall>cn. r2 = Return cn None \<longrightarrow>
         cn = spec_dial_conn (next_id w) (nodes c) target \<and>
         trace w2 = trace w @ spec_dial_calls (next_id w) (nodes c) target"
    by (elim exE conjE) (rule that)
  have do: "only_adds (\<lambda>e. \<not> is_tunnel e) w w2"
    using d(2) spec_dial_calls_no_tunnel d(3) by (rule run_only_adds)
  have Dl: "\<exists>r w' k cs. Dial (DialTLS n E c) E c addr w = Some (r, w') \<and>
            trace w' = trace w @ take k (spec_dial_calls (next_id w) (nodes c) target) @ cs \<and>
            list_all is_close cs \<and> (\<forall>p. r \<noteq> Panics p) \<and>
            only_adds (\<lambda>e. \<not> is_tunnel e) w w' \<and>
            (\<forall>cn. r = Return cn None \<longrightarrow>
               cn = spec_dial_conn (next_id w) (nodes c) target \<and>
               trace w' = trace w @ spec_dial_calls (next_id w) (nodes c) target)"
    by (rule exI [of _ r2], rule exI [of _ w2], rule exI [of _ k2], rule exI [of _ cs2])
      (intro conjI d do)
  from st G Dl show ?thesis by (intro conjI) simp_all
qed

theorem never_activated_raw_only_witness:
  "never_activated env_ok (AddProxyNode (TryEnableHttp2 (NewProxyChain [])) [nodeA, nodeB]) \<and>
   nodes (AddProxyNode (TryEnableHttp2 (NewProxyChain [])) [nodeA, nodeB]) = [nodeA, nodeB] \<and>
   \<not> http2Enabled (AddProxyNode (TryEnableHttp2 (NewProxyChain [])) [nodeA, nodeB]) \<and>
   http2NodeIndex (AddProxyNode (TryEnableHttp2 (NewProxyChain [])) [nodeA, nodeB]) = - 1 \<and>
   http2Client (AddProxyNode (TryEnableHttp2 (NewProxyChain [])) [nodeA, nodeB]) = None \<and>
   fst (the (GetConn (DialTLS 0 env_ok (AddProxyNode (TryEnableHttp2 (NewProxyChain [])) [nodeA, nodeB]))
               env_ok (AddProxyNode (TryEnableHttp2 (NewProxyChain [])) [nodeA, nodeB]) w0)) =
     Return (ProxyConn (ProxyConn (TcpConn 0 (Addr nodeA)) nodeA) nodeB) None \<and>
   trace (snd (the (GetConn (DialTLS 0 env_ok (AddProxyNode (TryEnableHttp2 (NewProxyChain [])) [nodeA, nodeB]))
               env_ok (AddProxyNode (TryEnableHttp2 (NewProxyChain [])) [nodeA, nodeB]) w0))) =
     [EvDial (Addr nodeA),
      EvHandshake (ProxyConn (TcpConn 0 (Addr nodeA)) nodeA),
      EvConnect (ProxyConn (TcpConn 0 (Addr nodeA)) nodeA) (Addr nodeB),
      EvHandshake (ProxyConn (ProxyConn (TcpConn 0 (Addr nodeA)) nodeA) nodeB)] \<and>
   fst (the (Dial (DialTLS 0 env_ok (AddProxyNode (TryEnableHttp2 (NewProxyChain [])) [nodeA, nodeB]))
               env_ok (AddProxyNode (TryEnableHttp2 (NewProxyChain [])) [nodeA, nodeB])
               ''example.com'' w0)) =
     Return (ProxyConn (ProxyConn (TcpConn 0 (Addr nodeA)) nodeA) nodeB) None \<and>
   trace (snd (the (Dial (DialTLS 0 env_ok (AddProxyNode (TryEnableHttp2 (NewProxyChain [])) [nodeA, nodeB]))
               env_ok (AddProxyNode (TryEnableHttp2 (NewProxyChain [])) [nodeA, nodeB])
               ''example.com'' w0))) =
     [EvDial (Addr nodeA),
      EvHandshake (ProxyConn (TcpConn 0 (Addr nodeA)) nodeA),
      EvConnect (ProxyConn (TcpConn 0 (Addr nodeA)) nodeA) (Addr nodeB),
      EvHandshake (ProxyConn (ProxyConn (TcpConn 0 (Addr nodeA)) nodeA) nodeB),
      EvConnect (ProxyConn (ProxyConn (TcpConn 0 (Addr nodeA)) nodeA) nodeB) ''example.com:80'']"
proof -
  let ?c = "AddProxyNode (TryEnableHttp2 (NewProxyChain [])) [nodeA, nodeB]"
  let ?D = "DialTLS 0 env_ok ?c"
  let ?top = "ProxyConn (ProxyConn (TcpConn 0 (Addr nodeA)) nodeA) nodeB"
  have "never_activated env_ok (NewProxyChain [])" by (rule never_activated.created)
  moreover have "nodes (NewProxyChain []) = []" by (simp add: NewProxyChain_def)
  ultimately have "never_activated env_ok (TryEnableHttp2 (NewProxyChain []))"
    by (rule never_activated.activated_empty)
  then have na: "never_activated env_ok ?c" by (rule never_activated.added)
  have ns: "nodes ?c = [nodeA, nodeB]"
    by (simp add: AddProxyNode_def TryEnableHttp2_def NewProxyChain_def)
  have cdef: "?c = \<lparr>nodes = [nodeA, nodeB], lastNode = None, http2NodeIndex = - 1,
      http2Enabled = False, http2Client = None\<rparr>"
    by (simp add: AddProxyNode_def TryEnableHttp2_def NewProxyChain_def)
  note t = never_activated_raw_only [OF na, of 0 w0 "''example.com''"]
  from t have st: "\<not> http2Enabled ?c" "http2NodeIndex ?c = - 1" "http2Client ?c = None"
    by simp_all
  from t obtain r w' where g: "GetConn ?D env_ok ?c w0 = Some (r, w')"
    "\<forall>cn. r = Return cn None \<longrightarrow> cn = spec_chain_conn (next_id w0) (nodes ?c) \<and>
       trace w' = trace w0 @ spec_chain_calls (next_id w0) (nodes ?c)"
    by (elim exE conjE) (rule that)
  from t obtain r2 w2 where d: "Dial ?D env_ok ?c ''example.com'' w0 = Some (r2, w2)"
    "\<forall>cn. r2 = Return cn None \<longrightarrow>
       cn = spec_dial_conn (next_id w0) (nodes ?c)
              (if CHR '':'' \<notin> set ''example.com'' then ''example.com'' @ '':80'' else ''example.com'') \<and>
       trace w2 = trace w0 @ spec_dial_calls (next_id w0) (nodes ?c)
              (if CHR '':'' \<notin> set ''example.com'' then ''example.com'' @ '':80'' else ''example.com'')"
    by (elim exE conjE) (rule that)
  have ge: "fst (the (GetConn ?D env_ok ?c w0)) = Return ?top None"
    unfolding cdef
    by (simp add: GetConn_def engine_defs Let_def env_ok_def w0_def)
  have de: "fst (the (Dial ?D env_ok ?c ''example.com'' w0)) = Return ?top None"
    unfolding cdef
    by (simp add: Dial_def dialWithNodes_def engine_defs Let_def env_ok_def w0_def)
  have r: "r = Return ?top None" using ge g(1) by simp
  have r2: "r2 = Return ?top None" using de d(1) by simp
  have gt: "trace w' = spec_chain_calls 0 [nodeA, nodeB]"
    using g(2) r by (simp add: ns w0_def)
  have dt: "trace w2 = spec_dial_calls 0 [nodeA, nodeB] ''example.com:80''"
    using d(2) r2 by (simp add: ns w0_def)
  show ?thesis
    using na ns st ge de gt dt g(1) d(1)
    by (simp add: spec_dial_calls_def)
qed

end
